theory Spec2Isabelle
  imports Complex_Main "HOL-Library.Multiset" "HOL-Library.AList" "HOL-Library.Product_Lexorder"
begin

section \<open>Outcomes of a call\<close>

text \<open>
  The helpers of \<^verbatim>\<open>figure_functions.py\<close> are Python functions over pandas and numpy.
  A call either returns, raises, or (only through the retry loop of \<^verbatim>\<open>find_color\<close>)
  runs forever. Exceptions are values of \<open>error\<close>; a function that cannot loop has the
  result type \<open>error + 'a\<close>, one that can has \<open>'a outcome\<close>.
\<close>

datatype error = KeyError string | KeyError_level rat | ValueError

datatype 'a outcome = Diverges | Raises error | Returns 'a

definition lift :: "error + 'a \<Rightarrow> 'a outcome" where
  "lift r = (case r of Inl e \<Rightarrow> Raises e | Inr v \<Rightarrow> Returns v)"

definition and_then :: "'a outcome \<Rightarrow> ('a \<Rightarrow> 'b outcome) \<Rightarrow> 'b outcome" where
  "and_then m f = (case m of Diverges \<Rightarrow> Diverges | Raises e \<Rightarrow> Raises e | Returns v \<Rightarrow> f v)"

definition try_then :: "error + 'a \<Rightarrow> ('a \<Rightarrow> error + 'b) \<Rightarrow> error + 'b" where
  "try_then m f = (case m of Inl e \<Rightarrow> Inl e | Inr v \<Rightarrow> f v)"

section \<open>Colours: \<^verbatim>\<open>find_color\<close>\<close>

text \<open>
  \<^verbatim>\<open>np.random.randint(0, 8)\<close> is modelled by an arbitrary sequence \<open>entropy\<close> of natural
  numbers read at a position that advances with every draw; the draw is reduced into the
  half-open range, so every sequence of values of \<open>{0..7}\<close> is a possible run of the
  generator.
\<close>

type_synonym rng = "nat \<Rightarrow> nat"

definition randint :: "rng \<Rightarrow> nat \<Rightarrow> nat \<Rightarrow> nat \<Rightarrow> nat" where
  "randint entropy pos low high = low + entropy pos mod (high - low)"

datatype color = Rgba nat nat nat rat

definition AXA_colors :: "color list" where
  "AXA_colors =
     [Rgba 0 0 143 (8 / 10),
      Rgba 252 211 133 (8 / 10),
      Rgba 2 113 128 (8 / 10),
      Rgba 225 150 170 (8 / 10),
      Rgba 0 174 198 (8 / 10),
      Rgba 145 65 70 (8 / 10),
      Rgba 52 60 61 (8 / 10),
      Rgba 181 208 238 (8 / 10)]"

text \<open>
  The loop \<^verbatim>\<open>while temp in color_used: temp = np.random.randint(0, 8)\<close>, entered with the
  first draw already made at position \<open>pos\<close>. \<open>None\<close> is the loop that never exits.
\<close>

partial_function (option) retry :: "rng \<Rightarrow> nat list \<Rightarrow> nat \<Rightarrow> (nat \<times> nat) option" where
  "retry entropy color_used pos =
     (if randint entropy pos 0 8 \<in> set color_used
      then retry entropy color_used (Suc pos)
      else Some (randint entropy pos 0 8, Suc pos))"

definition find_color :: "rng \<Rightarrow> nat \<Rightarrow> nat list \<Rightarrow> (color \<times> nat list \<times> nat) outcome" where
  "find_color entropy pos color_used =
     (case retry entropy color_used pos of
        None \<Rightarrow> Diverges
      | Some (temp, pos') \<Rightarrow> Returns (AXA_colors ! temp, color_used @ [temp], pos'))"

section \<open>Data frames, series and the library calls\<close>

text \<open>
  A pandas \<^verbatim>\<open>DataFrame\<close> is a row count (\<^verbatim>\<open>len(df)\<close>) and an ordered list of named
  columns. Cells are exact rational numbers: floating-point rounding, \<^verbatim>\<open>NaN\<close> cells and
  non-numeric cells are outside the model. The frame handed to \<^verbatim>\<open>create_figure\<close> is
  mutated by \<^verbatim>\<open>cat_clients\<close>, so frames live in a store and are passed by reference.
\<close>

record dataframe =
  nrows :: nat
  columns :: "(string \<times> rat list) list"

type_synonym ref = nat
type_synonym heap = "ref \<Rightarrow> dataframe"

definition wf_df :: "dataframe \<Rightarrow> bool" where
  "wf_df df \<longleftrightarrow>
     distinct (map fst (columns df)) \<and> list_all (\<lambda>c. length (snd c) = nrows df) (columns df)"

text \<open>\<^verbatim>\<open>df[name]\<close>: the column, or \<^verbatim>\<open>KeyError\<close>.\<close>

definition getcol :: "dataframe \<Rightarrow> string \<Rightarrow> error + rat list" where
  "getcol df name =
     (case map_of (columns df) name of None \<Rightarrow> Inl (KeyError name) | Some c \<Rightarrow> Inr c)"

definition has_column :: "dataframe \<Rightarrow> string \<Rightarrow> bool" where
  "has_column df name \<longleftrightarrow> name \<in> set (map fst (columns df))"

text \<open>\<^verbatim>\<open>df[name] = c\<close>: overwrites the column of that name, or appends a new last column.\<close>

definition setcol :: "dataframe \<Rightarrow> string \<Rightarrow> rat list \<Rightarrow> dataframe" where
  "setcol df name c = df\<lparr>columns := AList.update name c (columns df)\<rparr>"

text \<open>
  \<^verbatim>\<open>math.ceil(s.max() / 100)\<close> needs a maximum: the maximum of an empty series is
  \<^verbatim>\<open>NaN\<close>, on which \<^verbatim>\<open>math.ceil\<close> raises \<^verbatim>\<open>ValueError\<close>.
\<close>

definition series_max :: "rat list \<Rightarrow> error + rat" where
  "series_max s = (if s = [] then Inl ValueError else Inr (Max (set s)))"

text \<open>
  \<^verbatim>\<open>np.arange(start, stop, step)\<close>: \<open>\<lceil>(stop - start) / step\<rceil>\<close> values \<open>start + i * step\<close>
  (none when that number is not positive); a zero step has no length and raises.
\<close>

definition np_arange :: "rat \<Rightarrow> rat \<Rightarrow> rat \<Rightarrow> error + rat list" where
  "np_arange start stop step =
     (if step = 0 then Inl ValueError
      else Inr (map (\<lambda>i. start + of_nat i * step) [0..<nat \<lceil>(stop - start) / step\<rceil>]))"

text \<open>
  \<^verbatim>\<open>np.histogram(a, bins)[0]\<close> with an array of edges: the edges must not decrease
  (\<^verbatim>\<open>np.any(bins[:-1] > bins[1:])\<close> raises \<^verbatim>\<open>ValueError\<close>); every bin is half-open
  \<open>[left, right)\<close> except the last, which is closed.
\<close>

definition increasing :: "rat list \<Rightarrow> bool" where
  "increasing bins \<longleftrightarrow> list_all (\<lambda>(l, r). \<not> l > r) (zip (butlast bins) (tl bins))"

definition in_bin :: "rat list \<Rightarrow> nat \<Rightarrow> rat \<Rightarrow> bool" where
  "in_bin bins i v \<longleftrightarrow>
     bins ! i \<le> v \<and> (if Suc (Suc i) = length bins then v \<le> bins ! Suc i else v < bins ! Suc i)"

definition np_histogram :: "rat list \<Rightarrow> rat list \<Rightarrow> error + nat list" where
  "np_histogram a bins =
     (if \<not> increasing bins then Inl ValueError
      else Inr (map (\<lambda>i. length (filter (in_bin bins i) a)) [0..<length bins - 1]))"

text \<open>
  Dividing a numpy array by \<^verbatim>\<open>len(df)\<close> does not raise on zero: the entry is
  \<^verbatim>\<open>nan\<close> or \<^verbatim>\<open>inf\<close>, here \<open>None\<close>.
\<close>

definition true_divide :: "rat \<Rightarrow> rat \<Rightarrow> rat option" where
  "true_divide a b = (if b = 0 then None else Some (a / b))"

text \<open>\<^verbatim>\<open>Series.between(left, right)\<close>: inclusive on both sides.\<close>

definition between :: "rat list \<Rightarrow> rat \<Rightarrow> rat \<Rightarrow> bool list" where
  "between s left right = map (\<lambda>v. left \<le> v \<and> v \<le> right) s"

text \<open>
  \<^verbatim>\<open>np.select(condlist, choicelist, default)\<close>: per row, the choice of the first condition
  that holds, else the default. An empty condition list raises \<^verbatim>\<open>ValueError\<close>.
\<close>

definition np_select :: "bool list list \<Rightarrow> nat list \<Rightarrow> nat \<Rightarrow> error + nat list" where
  "np_select condlist choicelist default_choice =
     (if length condlist \<noteq> length choicelist then Inl ValueError
      else if condlist = [] then Inl ValueError
      else Inr (map (\<lambda>j. case find (\<lambda>i. condlist ! i ! j) [0..<length condlist] of
                           None \<Rightarrow> default_choice
                         | Some i \<Rightarrow> choicelist ! i)
                    [0..<length (hd condlist)]))"

text \<open>
  \<^verbatim>\<open>df.sort_values(by=[name])\<close> returns a new frame with the rows reordered by the key
  column. The order among equal keys is fixed here as the stable one.
\<close>

definition reorder :: "dataframe \<Rightarrow> nat list \<Rightarrow> dataframe" where
  "reorder df order = df\<lparr>columns := map (\<lambda>(name, c). (name, map (\<lambda>i. c ! i) order)) (columns df)\<rparr>"

definition sort_values :: "dataframe \<Rightarrow> string \<Rightarrow> error + dataframe" where
  "sort_values df by_col =
     try_then (getcol df by_col) (\<lambda>key.
       Inr (reorder df (sort_key (\<lambda>i. key ! i) [0..<nrows df])))"

text \<open>
  \<^verbatim>\<open>df.groupby([k])[var].mean()\<close> and \<^verbatim>\<open>df.groupby([k1, k2])[var].mean()\<close>: a series
  indexed by the distinct keys in ascending order, holding the mean of \<open>var\<close> over the rows
  of each key. \<^verbatim>\<open>s[v]\<close> on the two-level series selects the entries whose first level is \<open>v\<close>.
\<close>

definition mean :: "rat list \<Rightarrow> rat" where
  "mean vs = sum_list vs / of_nat (length vs)"

definition group_means :: "('k::linorder) list \<Rightarrow> rat list \<Rightarrow> ('k \<times> rat) list" where
  "group_means ks vs =
     map (\<lambda>k. (k, mean (map snd (filter (\<lambda>r. fst r = k) (zip ks vs))))) (sort (remdups ks))"

definition groupby_mean :: "dataframe \<Rightarrow> string \<Rightarrow> string \<Rightarrow> error + (rat \<times> rat) list" where
  "groupby_mean df key var =
     try_then (getcol df key) (\<lambda>ks.
     try_then (getcol df var) (\<lambda>vs.
       Inr (group_means ks vs)))"

definition groupby2_mean ::
  "dataframe \<Rightarrow> string \<Rightarrow> string \<Rightarrow> string \<Rightarrow> error + ((rat \<times> rat) \<times> rat) list" where
  "groupby2_mean df key1 key2 var =
     try_then (getcol df key1) (\<lambda>ks1.
     try_then (getcol df key2) (\<lambda>ks2.
     try_then (getcol df var) (\<lambda>vs.
       Inr (group_means (zip ks1 ks2) vs))))"

definition level :: "((rat \<times> rat) \<times> rat) list \<Rightarrow> rat \<Rightarrow> error + (rat \<times> rat) list" where
  "level s v =
     (let sub = map (\<lambda>r. (snd (fst r), snd r)) (filter (\<lambda>r. fst (fst r) = v) s)
      in if sub = [] then Inl (KeyError_level v) else Inr sub)"

text \<open>\<^verbatim>\<open>Series.unique()\<close>: the distinct values in order of first appearance.\<close>

definition unique :: "rat list \<Rightarrow> rat list" where
  "unique s = rev (remdups (rev s))"

section \<open>Traces\<close>

datatype label = Text string | Str_of rat

datatype trace =
    Bar (bar_x: "rat list") (bar_y: "rat option list") (bar_marker: color)
        (bar_opacity: rat) (bar_name: label)
  | Scatter (scatter_x: "(rat \<times> rat) list") (scatter_y: "(rat \<times> rat) list")
        (scatter_mode: string) (scatter_marker: color) (scatter_name: label)
        (scatter_yaxis: string)

fun str_nat :: "nat \<Rightarrow> string" where
  "str_nat n =
     (if n < 10 then [''0123456789'' ! n] else str_nat (n div 10) @ [''0123456789'' ! (n mod 10)])"

declare str_nat.simps [simp del]

section \<open>\<^verbatim>\<open>create_dist\<close>\<close>

definition bar_heights :: "nat list \<Rightarrow> nat \<Rightarrow> rat option list" where
  "bar_heights counts len =
     map (\<lambda>c. map_option (\<lambda>q. q * (1 / 100)) (true_divide (of_nat c * 100) (of_nat len))) counts"

definition create_dist ::
  "dataframe \<Rightarrow> string \<Rightarrow> color \<Rightarrow> rat list option \<Rightarrow> rat \<Rightarrow> error + (trace \<times> rat list)" where
  "create_dist df x_var color x_bar interval_perc =
     try_then
       (case x_bar of
          Some x_bar \<Rightarrow> Inr x_bar
        | None \<Rightarrow>
            try_then (getcol df x_var) (\<lambda>s.
            try_then (series_max s) (\<lambda>m.
              let temp = \<lceil>m / 100\<rceil>;
                  interval = interval_perc * of_int temp
              in np_arange 0 (of_int (\<lceil>m / 100\<rceil> * 100 + temp)) interval)))
       (\<lambda>x_bar.
          try_then (getcol df x_var) (\<lambda>s.
          try_then (np_histogram s x_bar) (\<lambda>counts.
            let y_bar = bar_heights counts (nrows df)
            in Inr (Bar x_bar y_bar color (3 / 10) (Text (''Dist. '' @ x_var)), x_bar))))"

text \<open>A value is covered by the edges when some interval between two neighbouring edges holds it.\<close>

definition covered :: "rat list \<Rightarrow> rat \<Rightarrow> bool" where
  "covered x_bar v \<longleftrightarrow> list_ex (\<lambda>i. x_bar ! i \<le> v \<and> v \<le> x_bar ! Suc i) [0..<length x_bar - 1]"

section \<open>\<^verbatim>\<open>cat_clients\<close>\<close>

fun criteria_loop ::
  "dataframe \<Rightarrow> string \<Rightarrow> rat list \<Rightarrow> nat list \<Rightarrow> bool list list \<Rightarrow> error + bool list list" where
  "criteria_loop df x_var x_bar [] criteria = Inr criteria"
| "criteria_loop df x_var x_bar (i # rest) criteria =
     try_then (getcol df x_var) (\<lambda>s.
       criteria_loop df x_var x_bar rest (criteria @ [between s (x_bar ! i) (x_bar ! (i + 1))]))"

definition cat_clients :: "heap \<Rightarrow> ref \<Rightarrow> string \<Rightarrow> rat list \<Rightarrow> error + (ref \<times> heap)" where
  "cat_clients h df x_var x_bar =
     try_then (criteria_loop (h df) x_var x_bar [0..<length x_bar - 1] []) (\<lambda>criteria.
       let values = [0..<length x_bar - 1]
       in try_then (np_select criteria values 0) (\<lambda>cat.
            Inr (df, h(df := setcol (h df) ''cat'' (map of_nat cat)))))"

text \<open>
  What the call writes for one value: the index of the first interval, closed on both
  sides, that holds the value, and 0 when there is none.
\<close>

definition cat_of :: "rat list \<Rightarrow> rat \<Rightarrow> nat" where
  "cat_of x_bar v =
     (case find (\<lambda>i. x_bar ! i \<le> v \<and> v \<le> x_bar ! (i + 1)) [0..<length x_bar - 1] of
        None \<Rightarrow> 0
      | Some i \<Rightarrow> i)"

section \<open>\<^verbatim>\<open>avg_cats\<close> and \<^verbatim>\<open>create_scatter\<close>\<close>

definition avg_cats ::
  "dataframe \<Rightarrow> string \<Rightarrow> string \<Rightarrow> error + ((rat \<times> rat) list \<times> (rat \<times> rat) list)" where
  "avg_cats df x_var y_var =
     try_then (sort_values df ''pr_total'') (\<lambda>df.
     try_then (groupby_mean df ''cat'' x_var) (\<lambda>x.
     try_then (groupby_mean df ''cat'' y_var) (\<lambda>y.
       Inr (x, y))))"

definition create_scatter ::
  "(rat \<times> rat) list \<Rightarrow> (rat \<times> rat) list \<Rightarrow> label \<Rightarrow> color \<Rightarrow> nat \<Rightarrow> trace" where
  "create_scatter x y var_name color axis_num =
     Scatter x y ''lines+markers'' color var_name (''y'' @ str_nat axis_num)"

section \<open>\<^verbatim>\<open>create_cat_plots\<close>\<close>

text \<open>\<^verbatim>\<open>df[df[categorical_var] == v][x_var]\<close>: the \<open>x_var\<close> cells of the rows whose category is \<open>v\<close>.\<close>

definition cat_rows :: "rat list \<Rightarrow> rat list \<Rightarrow> rat \<Rightarrow> rat list" where
  "cat_rows cs xs v = map snd (filter (\<lambda>r. fst r = v) (zip cs xs))"

text \<open>
  The loop \<^verbatim>\<open>for v in df[categorical_var].unique()\<close>; each round draws a colour, so the
  position of the generator and \<^verbatim>\<open>color_used\<close> are threaded through it.
\<close>

fun cat_loop ::
  "rng \<Rightarrow> dataframe \<Rightarrow> string \<Rightarrow> string \<Rightarrow> rat list \<Rightarrow>
   ((rat \<times> rat) \<times> rat) list \<Rightarrow> ((rat \<times> rat) \<times> rat) list \<Rightarrow>
   rat list \<Rightarrow> trace list \<Rightarrow> nat \<Rightarrow> nat list \<Rightarrow> (trace list \<times> nat list \<times> nat) outcome" where
  "cat_loop entropy df categorical_var x_var x_bar temp_cat_x temp_cat_y [] trace_cats pos color_used =
     Returns (trace_cats, color_used, pos)"
| "cat_loop entropy df categorical_var x_var x_bar temp_cat_x temp_cat_y (v # rest) trace_cats pos color_used =
     and_then (lift (level temp_cat_x v)) (\<lambda>temp_x.
     and_then (lift (level temp_cat_y v)) (\<lambda>temp_y.
     and_then (lift (try_then (getcol df categorical_var) (\<lambda>cs.
                     try_then (getcol df x_var) (\<lambda>xs.
                       np_histogram (cat_rows cs xs v) x_bar)))) (\<lambda>counts.
     let y_bar = bar_heights counts (nrows df)
     in and_then (find_color entropy pos color_used) (\<lambda>(color, color_used, pos).
          cat_loop entropy df categorical_var x_var x_bar temp_cat_x temp_cat_y rest
            (trace_cats @ [create_scatter temp_x temp_y (Str_of v) color 1,
                           Bar x_bar y_bar color (3 / 10) (Str_of v)])
            pos color_used))))"

definition create_cat_plots ::
  "rng \<Rightarrow> nat \<Rightarrow> dataframe \<Rightarrow> string \<Rightarrow> string \<Rightarrow> string \<Rightarrow> rat list \<Rightarrow> nat list \<Rightarrow>
   (trace list \<times> nat list \<times> nat) outcome" where
  "create_cat_plots entropy pos df categorical_var x_var y_var x_bar color_used =
     and_then (lift (groupby2_mean df categorical_var ''cat'' x_var)) (\<lambda>temp_cat_x.
     and_then (lift (groupby2_mean df categorical_var ''cat'' y_var)) (\<lambda>temp_cat_y.
     and_then (lift (getcol df categorical_var)) (\<lambda>s.
       cat_loop entropy df categorical_var x_var x_bar temp_cat_x temp_cat_y (unique s) []
         pos color_used)))"

section \<open>\<^verbatim>\<open>create_figure\<close>\<close>

datatype axis = Axis (axis_title: string) (axis_overlaying: string) (axis_side: string)

record layout =
  layout_title :: string
  xaxis :: "string \<times> bool"
  yaxis :: string
  barmode :: "string option"
  yaxis2 :: "axis option"

text \<open>The arguments of the call of \<^verbatim>\<open>plotly.offline.plot\<close>.\<close>

record plot_call =
  plot_data :: "trace list"
  plot_layout :: layout
  filename :: string

definition output_file :: "string \<Rightarrow> string" where
  "output_file title =
     ''C:'' @ [CHR 0x5C] @ ''Users'' @ [CHR 0x5C] @ ''a-garde'' @ [CHR 0x5C] @ ''PycharmProjects''
       @ [CHR 0x5C] @ ''Plotly-Graph'' @ [CHR 0x5C] @ ''output_file'' @ [CHR 0x5C]
       @ title @ ''.html''"

text \<open>
  The function is modelled in three parts: the block under
  \<^verbatim>\<open>if second_y_var is not None\<close>, the block under \<^verbatim>\<open>if categorical_var is not None\<close>,
  and the body that runs them in this order between the base traces and the final call
  of \<^verbatim>\<open>plotly.offline.plot\<close>. Each block hands on the variables it may have reassigned.
\<close>

definition second_axis ::
  "rng \<Rightarrow> dataframe \<Rightarrow> string \<Rightarrow> string option \<Rightarrow> rat list \<Rightarrow> trace list \<Rightarrow> layout \<Rightarrow>
   nat list \<Rightarrow> nat \<Rightarrow> (trace list \<times> layout \<times> nat list \<times> nat \<times> rat list) outcome" where
  "second_axis entropy df x_var second_y_var x_bar data layout color_used pos =
     (case second_y_var of
        None \<Rightarrow> Returns (data, layout, color_used, pos, x_bar)
      | Some second_y_var \<Rightarrow>
          and_then (lift (avg_cats df x_var second_y_var)) (\<lambda>(x2, y2).
          and_then (find_color entropy pos color_used) (\<lambda>(color2, color_used, pos).
          let trace_scatter2 = create_scatter x2 y2 (Text second_y_var) color2 2
          in
          and_then (lift (create_dist df second_y_var color2 (Some x_bar) (1 / 10)))
            (\<lambda>(trace_bar2, x_bar).
               Returns (data @ [trace_scatter2, trace_bar2],
                        layout\<lparr>yaxis2 := Some (Axis second_y_var ''y1'' ''right'')\<rparr>,
                        color_used, pos, x_bar)))))"

definition categorical ::
  "rng \<Rightarrow> dataframe \<Rightarrow> string option \<Rightarrow> string \<Rightarrow> string \<Rightarrow> rat list \<Rightarrow> trace list \<Rightarrow>
   nat list \<Rightarrow> nat \<Rightarrow> trace list outcome" where
  "categorical entropy df categorical_var x_var y_var x_bar data color_used pos =
     (case categorical_var of
        None \<Rightarrow> Returns data
      | Some categorical_var \<Rightarrow>
          and_then (create_cat_plots entropy pos df categorical_var x_var y_var x_bar color_used)
            (\<lambda>(trace_cats, color_used, pos). Returns (data @ trace_cats)))"

definition create_figure ::
  "rng \<Rightarrow> nat \<Rightarrow> heap \<Rightarrow> ref \<Rightarrow> string \<Rightarrow> string \<Rightarrow> string \<Rightarrow> string \<Rightarrow> string \<Rightarrow>
   string option \<Rightarrow> string option \<Rightarrow> bool \<Rightarrow> (plot_call \<times> heap) outcome" where
  "create_figure entropy pos h df x_var y_var x_title y_title title second_y_var categorical_var
     stack_bar =
     (let color_used = [] in
      and_then (find_color entropy pos color_used) (\<lambda>(color, color_used, pos).
      and_then (lift (create_dist (h df) x_var color None (1 / 10))) (\<lambda>(trace_bar, x_bar).
      and_then (lift (cat_clients h df x_var x_bar)) (\<lambda>(df, h).
      and_then (lift (avg_cats (h df) x_var y_var)) (\<lambda>(x, y).
      let trace_scatter = create_scatter x y (Text x_var) color 1;
          bm = (if stack_bar then Some ''stack'' else None);
          data = [trace_bar, trace_scatter];
          layout = \<lparr>layout_title = title, xaxis = (x_title, True), yaxis = y_title,
                    barmode = bm, yaxis2 = None\<rparr>
      in
      and_then (second_axis entropy (h df) x_var second_y_var x_bar data layout color_used pos)
        (\<lambda>(data, layout, color_used, pos, x_bar).
      and_then (categorical entropy (h df) categorical_var x_var y_var x_bar data color_used pos)
        (\<lambda>data.
           Returns (\<lparr>plot_data = data, plot_layout = layout, filename = output_file title\<rparr>,
                    h))))))))"

section \<open>Properties of \<^verbatim>\<open>find_color\<close>\<close>

lemma randint_0_8_less: "randint entropy pos 0 8 < 8"
  by (simp add: randint_def)

lemma retry_after:
  "randint entropy (pos + k) 0 8 \<notin> set color_used \<Longrightarrow>
   \<exists>j \<le> k. retry entropy color_used pos = Some (randint entropy (pos + j) 0 8, Suc (pos + j))
        \<and> randint entropy (pos + j) 0 8 \<notin> set color_used"
proof (induction k arbitrary: pos)
  case 0
  then show ?case by (subst retry.simps) simp
next
  case (Suc k)
  show ?case
  proof (cases "randint entropy pos 0 8 \<in> set color_used")
    case False
    then have "retry entropy color_used pos = Some (randint entropy (pos + 0) 0 8, Suc (pos + 0))"
      by (subst retry.simps) simp
    with False show ?thesis by (intro exI [of _ 0]) simp
  next
    case True
    from Suc.prems have "randint entropy (Suc pos + k) 0 8 \<notin> set color_used" by simp
    from Suc.IH [OF this] obtain j where j: "j \<le> k"
      "retry entropy color_used (Suc pos) = Some (randint entropy (Suc pos + j) 0 8, Suc (Suc pos + j))"
      "randint entropy (Suc pos + j) 0 8 \<notin> set color_used" by blast
    from True have "retry entropy color_used pos = retry entropy color_used (Suc pos)"
      by (subst retry.simps) simp
    with j show ?thesis by (intro exI [of _ "Suc j"]) simp
  qed
qed

lemma retry_Some_unused:
  assumes "retry entropy color_used pos = Some r"
  shows "fst r \<notin> set color_used \<and> fst r < 8"
proof (rule retry.raw_induct [where P = "\<lambda>e u p r. fst r \<notin> set u \<and> fst r < 8", OF _ assms])
  fix f e u p r
  assume "\<And>u p b y. f u p b = Some y \<Longrightarrow> fst y \<notin> set p \<and> fst y < 8"
    and "(if randint e p 0 8 \<in> set u then f e u (Suc p) else Some (randint e p 0 8, Suc p)) = Some r"
  then show "fst r \<notin> set u \<and> fst r < 8"
    by (auto split: if_splits simp: randint_0_8_less)
qed

lemma retry_all_used:
  assumes "{0..<8} \<subseteq> set color_used"
  shows "retry entropy color_used pos = None"
proof (cases "retry entropy color_used pos")
  case None
  then show ?thesis .
next
  case (Some r)
  from retry_Some_unused [OF Some] assms show ?thesis by auto
qed

section \<open>Sequencing\<close>

lemma and_then_Returns_iff:
  "and_then m f = Returns z \<longleftrightarrow> (\<exists>v. m = Returns v \<and> f v = Returns z)"
  by (cases m) (simp_all add: and_then_def)

lemma lift_Returns_iff: "lift r = Returns v \<longleftrightarrow> r = Inr v"
  by (cases r) (simp_all add: lift_def)

lemma try_then_Inr_iff:
  "try_then m f = Inr z \<longleftrightarrow> (\<exists>v. m = Inr v \<and> f v = Inr z)"
  by (cases m) (simp_all add: try_then_def)

lemma try_then_Inr [simp]: "try_then (Inr v) f = f v"
  by (simp add: try_then_def)

lemma try_then_Inl [simp]: "try_then (Inl e) f = Inl e"
  by (simp add: try_then_def)

section \<open>Bin edges of \<^verbatim>\<open>create_dist\<close>\<close>

lemma increasing_iff_nth:
  "increasing bins \<longleftrightarrow> (\<forall>i. Suc i < length bins \<longrightarrow> bins ! i \<le> bins ! Suc i)"
proof -
  have len: "length (zip (butlast bins) (tl bins)) = length bins - 1" by simp
  have nth: "zip (butlast bins) (tl bins) ! i = (bins ! i, bins ! Suc i)"
    if "Suc i < length bins" for i
    using that by (simp add: nth_butlast nth_tl)
  show ?thesis
    unfolding increasing_def list_all_length len
    by (auto simp: nth nth_butlast nth_tl less_diff_conv)
qed

lemma increasing_arange:
  assumes "0 \<le> step"
  shows "increasing (map (\<lambda>i. start + of_nat i * step) [0..<n])"
  unfolding increasing_iff_nth using assms
  by (auto simp: mult_right_mono)


lemma create_dist_None_unfold:
  assumes "getcol df x_var = Inr s" "s \<noteq> []"
  shows "create_dist df x_var color None interval_perc =
     try_then (np_arange 0 (of_int (\<lceil>Max (set s) / 100\<rceil> * 100 + \<lceil>Max (set s) / 100\<rceil>))
                 (interval_perc * of_int \<lceil>Max (set s) / 100\<rceil>)) (\<lambda>x_bar.
     try_then (np_histogram s x_bar) (\<lambda>counts.
       Inr (Bar x_bar (bar_heights counts (nrows df)) color (3 / 10) (Text (''Dist. '' @ x_var)),
            x_bar)))"
  using assms by (simp add: create_dist_def series_max_def Let_def)

lemma ceil_100_pos:
  fixes m :: rat
  assumes "0 < m"
  shows "1 \<le> \<lceil>m / 100\<rceil>" "m \<le> of_int (\<lceil>m / 100\<rceil> * 100)"
proof -
  from assms have "0 < m / 100" by simp
  then have "0 < \<lceil>m / 100\<rceil>" by (simp add: ceiling_less_iff)
  then show "1 \<le> \<lceil>m / 100\<rceil>" by simp
  have "m / 100 \<le> of_int \<lceil>m / 100\<rceil>" by (rule le_of_int_ceiling)
  then have "m \<le> of_int \<lceil>m / 100\<rceil> * 100" by linarith
  then show "m \<le> of_int (\<lceil>m / 100\<rceil> * 100)" by simp
qed

lemma arange_edges:
  fixes p :: rat and t :: int
  assumes t: "1 \<le> t" and p: "0 < p" "p \<le> 1"
  defines "step \<equiv> p * of_int t"
  defines "n \<equiv> nat \<lceil>(of_int (t * 100 + t) - 0) / step\<rceil>"
  shows "0 < step" "2 \<le> n" "of_int (t * 100) \<le> of_nat (n - 1) * step"
    "of_nat (n - 1) * step < of_int (t * 100 + t)"
    "of_int (t * 100 + t) \<le> of_nat n * step"
proof -
  have tpos: "(0::rat) < of_int t" using t by simp
  show step: "0 < step" using p tpos by (simp add: step_def)
  have q: "(of_int (t * 100 + t) - 0) / step = 101 / p"
    using tpos p by (simp add: step_def field_simps)
  have "101 \<le> 101 / p" using p by (simp add: field_simps)
  then have "(101::rat) \<le> of_int \<lceil>101 / p\<rceil>" using le_of_int_ceiling [of "101 / p"] by linarith
  then have c101: "101 \<le> \<lceil>101 / p\<rceil>" by linarith
  have n_eq: "n = nat \<lceil>101 / p\<rceil>" unfolding n_def q ..
  from c101 show "2 \<le> n" unfolding n_eq by linarith
  have n_int: "int n = \<lceil>101 / p\<rceil>" using c101 unfolding n_eq by linarith
  then have n_rat: "(of_nat n :: rat) = of_int \<lceil>101 / p\<rceil>"
    by (metis of_int_of_nat_eq)
  have n1: "(of_nat (n - 1) :: rat) = of_nat n - 1"
    using \<open>2 \<le> n\<close> by (simp add: of_nat_diff)
  have lo: "101 / p \<le> of_nat n" unfolding n_rat by (rule le_of_int_ceiling)
  have hi: "of_nat n < 101 / p + 1" unfolding n_rat using ceiling_correct [of "101 / p"] by linarith
  have "of_int (t * 100 + t) = (101 / p) * step"
    using p by (simp add: step_def field_simps)
  also have "\<dots> \<le> of_nat n * step" using lo step by (intro mult_right_mono) simp_all
  finally show "of_int (t * 100 + t) \<le> of_nat n * step" .
  have "of_nat (n - 1) * step < (101 / p) * step"
    unfolding n1 using hi step by (intro mult_strict_right_mono) simp_all
  also have "\<dots> = of_int (t * 100 + t)" using p by (simp add: step_def field_simps)
  finally show "of_nat (n - 1) * step < of_int (t * 100 + t)" .
  have "of_int (t * 100) = (100 / p) * step" using p by (simp add: step_def field_simps)
  also have "\<dots> \<le> (101 / p - 1) * step"
  proof (rule mult_right_mono)
    show "100 / p \<le> 101 / p - 1" using p by (simp add: field_simps)
    show "0 \<le> step" using step by simp
  qed
  also have "\<dots> \<le> of_nat (n - 1) * step"
    unfolding n1 using lo step by (intro mult_right_mono) simp_all
  finally show "of_int (t * 100) \<le> of_nat (n - 1) * step" .
qed


lemma covered_iff:
  "covered x_bar v \<longleftrightarrow> (\<exists>i. Suc i < length x_bar \<and> x_bar ! i \<le> v \<and> v \<le> x_bar ! Suc i)"
  by (auto simp: covered_def list_ex_iff less_diff_conv)

lemma create_dist_None_edges:
  assumes col: "getcol df x_var = Inr s" and ne: "s \<noteq> []" and m: "0 < Max (set s)"
    and p: "0 < interval_perc" "interval_perc \<le> 1"
  defines "t \<equiv> \<lceil>Max (set s) / 100\<rceil>"
  defines "step \<equiv> interval_perc * of_int t"
  defines "x_bar \<equiv> map (\<lambda>i. 0 + of_nat i * step) [0..<nat \<lceil>(of_int (t * 100 + t) - 0) / step\<rceil>]"
  shows "create_dist df x_var color None interval_perc =
           Inr (Bar x_bar (bar_heights (map (\<lambda>i. length (filter (in_bin x_bar i) s))
                                           [0..<length x_bar - 1]) (nrows df))
                    color (3 / 10) (Text (''Dist. '' @ x_var)), x_bar)"
    and "2 \<le> length x_bar"
    and "last x_bar < of_int (t * 100 + t)"
    and "of_int (t * 100 + t) \<le> last x_bar + step"
    and "Max (set s) \<le> last x_bar"
    and "\<And>v. 0 \<le> v \<Longrightarrow> v \<le> Max (set s) \<Longrightarrow> covered x_bar v"
    and "\<And>v. v < 0 \<Longrightarrow> \<not> covered x_bar v"
proof -
  define n where "n = nat \<lceil>(of_int (t * 100 + t) - 0) / step\<rceil>"
  have t1: "1 \<le> t" and mt: "Max (set s) \<le> of_int (t * 100)"
    using ceil_100_pos [OF m] by (simp_all add: t_def)
  note ar = arange_edges [OF t1 p, folded step_def, folded n_def]
  have xb: "x_bar = map (\<lambda>i. 0 + of_nat i * step) [0..<n]" by (simp add: x_bar_def n_def)
  have len: "length x_bar = n" by (simp add: xb)
  have nth: "x_bar ! i = of_nat i * step" if "i < n" for i using that by (simp add: xb)
  have step0: "step \<noteq> 0" using ar(1) by simp
  have inc: "increasing x_bar" unfolding xb using ar(1) by (intro increasing_arange) simp
  have "np_arange 0 (of_int (t * 100 + t)) step = Inr x_bar"
    using step0 by (simp add: np_arange_def x_bar_def)
  moreover have "np_histogram s x_bar =
      Inr (map (\<lambda>i. length (filter (in_bin x_bar i) s)) [0..<length x_bar - 1])"
    using inc by (simp add: np_histogram_def)
  ultimately show "create_dist df x_var color None interval_perc =
           Inr (Bar x_bar (bar_heights (map (\<lambda>i. length (filter (in_bin x_bar i) s))
                                           [0..<length x_bar - 1]) (nrows df))
                    color (3 / 10) (Text (''Dist. '' @ x_var)), x_bar)"
    unfolding create_dist_None_unfold [OF col ne] by (simp add: t_def step_def)
  show "2 \<le> length x_bar" using ar(2) len by simp
  have ne': "x_bar \<noteq> []" using ar(2) len by auto
  have last: "last x_bar = of_nat (n - 1) * step"
    using ar(2) by (simp add: last_conv_nth [OF ne'] len nth)
  show "last x_bar < of_int (t * 100 + t)" unfolding last by (rule ar(4))
  have "of_nat n * step = of_nat (n - 1) * step + step"
    using ar(2) by (simp add: of_nat_diff algebra_simps)
  with ar(5) show "of_int (t * 100 + t) \<le> last x_bar + step" unfolding last by simp
  show mlast: "Max (set s) \<le> last x_bar" unfolding last using mt ar(3) by linarith
  show "covered x_bar v" if v0: "0 \<le> v" and vm: "v \<le> Max (set s)" for v
  proof -
    define k where "k = nat \<lfloor>v / step\<rfloor>"
    have "0 \<le> v / step" using v0 ar(1) by simp
    then have kq: "(of_nat k :: rat) = of_int \<lfloor>v / step\<rfloor>" by (simp add: k_def)
    have "of_nat k \<le> v / step" unfolding kq by (rule of_int_floor_le)
    then have klo: "of_nat k * step \<le> v" using ar(1) by (simp add: field_simps)
    have "v / step < of_nat k + 1" unfolding kq by linarith
    then have khi: "v < (of_nat k + 1) * step" using ar(1) by (simp add: field_simps)
    show ?thesis
    proof (cases "Suc k < n")
      case True
      then have "x_bar ! k \<le> v" "v \<le> x_bar ! Suc k"
        using klo khi by (simp_all add: nth algebra_simps)
      with True show ?thesis unfolding covered_iff len by blast
    next
      case False
      then have "n - 1 \<le> k" by simp
      then have "(of_nat (n - 1) :: rat) \<le> of_nat k" by (simp only: of_nat_le_iff)
      then have "of_nat (n - 1) * step \<le> of_nat k * step"
        using ar(1) by (intro mult_right_mono) simp_all
      with klo have lo: "of_nat (n - 1) * step \<le> v" by linarith
      have hi: "v \<le> of_nat (n - 1) * step" using vm mlast unfolding last by linarith
      have s2: "Suc (n - 2) = n - 1" "Suc (n - 2) < n" using ar(2) by simp_all
      have "of_nat (n - 2) * step \<le> of_nat (n - 1) * step"
        using ar(1) by (intro mult_right_mono) simp_all
      with lo hi have "x_bar ! (n - 2) \<le> v" "v \<le> x_bar ! Suc (n - 2)"
        using s2 ar(2) by (simp_all add: nth)
      with s2 show ?thesis unfolding covered_iff len by blast
    qed
  qed
  show "\<not> covered x_bar v" if "v < 0" for v
  proof
    assume "covered x_bar v"
    then obtain i where i: "Suc i < n" "x_bar ! i \<le> v" unfolding covered_iff len by blast
    then have "of_nat i * step \<le> v" by (simp add: nth)
    moreover have "0 \<le> of_nat i * step" using ar(1) by simp
    ultimately show False using that by linarith
  qed
qed


text \<open>
  C2 (amended). For a frame whose \<open>x_var\<close> column has a positive maximum \<open>m\<close> and every
  \<open>interval_perc\<close> in \<open>(0, 1]\<close>, \<^verbatim>\<open>create_dist\<close> called with \<^verbatim>\<open>x_bar=None\<close> returns the
  edges \<open>0, step, 2 * step, ...\<close> with \<open>step = interval_perc * \<lceil>m / 100\<rceil>\<close>, up to but
  excluding \<open>\<lceil>m / 100\<rceil> * 100 + \<lceil>m / 100\<rceil>\<close>; the last edge is at least \<open>m\<close>, and every data
  value that is not negative is covered by some interval.
\<close>

theorem create_dist_bin_edges:
  assumes "getcol df x_var = Inr s" and "s \<noteq> []" and "0 < Max (set s)"
    and "0 < interval_perc" and "interval_perc \<le> 1"
  shows "\<exists>trace x_bar.
           create_dist df x_var color None interval_perc = Inr (trace, x_bar)
         \<and> x_bar = map (\<lambda>i. 0 + of_nat i * (interval_perc * of_int \<lceil>Max (set s) / 100\<rceil>))
                       [0..<length x_bar]
         \<and> 2 \<le> length x_bar
         \<and> last x_bar < of_int (\<lceil>Max (set s) / 100\<rceil> * 100 + \<lceil>Max (set s) / 100\<rceil>)
         \<and> of_int (\<lceil>Max (set s) / 100\<rceil> * 100 + \<lceil>Max (set s) / 100\<rceil>)
             \<le> last x_bar + interval_perc * of_int \<lceil>Max (set s) / 100\<rceil>
         \<and> Max (set s) \<le> last x_bar
         \<and> (\<forall>v \<in> set s. 0 \<le> v \<longrightarrow> covered x_bar v)"
proof -
  note e = create_dist_None_edges [OF assms]
  define x_bar where "x_bar = map (\<lambda>i. 0 + of_nat i * (interval_perc * of_int \<lceil>Max (set s) / 100\<rceil>))
     [0..<nat \<lceil>(of_int (\<lceil>Max (set s) / 100\<rceil> * 100 + \<lceil>Max (set s) / 100\<rceil>) - 0)
               / (interval_perc * of_int \<lceil>Max (set s) / 100\<rceil>)\<rceil>]"
  have shape: "x_bar = map (\<lambda>i. 0 + of_nat i * (interval_perc * of_int \<lceil>Max (set s) / 100\<rceil>))
                       [0..<length x_bar]"
    by (simp add: x_bar_def)
  have cov: "\<forall>v \<in> set s. 0 \<le> v \<longrightarrow> covered x_bar v"
    using e(6) [folded x_bar_def] assms(2) by simp
  from e(1) [of color, folded x_bar_def] shape e(2-5) [folded x_bar_def] cov
  show ?thesis by blast
qed

text \<open>The theorem at the column \<open>[30, 50]\<close> with the default \<open>interval_perc\<close>.\<close>

theorem create_dist_bin_edges_witness:
  "\<exists>trace x_bar.
     create_dist \<lparr>nrows = 2, columns = [(''x'', [30, 50])]\<rparr> ''x'' (Rgba 0 0 143 (8 / 10)) None (1 / 10)
       = Inr (trace, x_bar)
     \<and> 2 \<le> length x_bar \<and> last x_bar < 101 \<and> 50 \<le> last x_bar
     \<and> covered x_bar 30 \<and> covered x_bar 50"
proof -
  have "getcol \<lparr>nrows = 2, columns = [(''x'', [30, 50])]\<rparr> ''x'' = Inr [30, 50]"
    by (simp add: getcol_def)
  moreover have "\<lceil>1 / 2 :: rat\<rceil> = 1" by (rule ceiling_unique) simp_all
  ultimately show ?thesis
    using create_dist_bin_edges [of _ "''x''" "[30, 50]" "1 / 10" "Rgba 0 0 143 (8 / 10)"]
    by simp blast
qed

text \<open>
  The edges start at 0, so a negative value of a column with a positive maximum lies in no
  interval: the column \<open>[-5, 50]\<close>.
\<close>

theorem create_dist_negative_value_not_covered:
  "getcol \<lparr>nrows = 2, columns = [(''x'', [- 5, 50])]\<rparr> ''x'' = Inr [- 5, 50]
   \<and> 0 < Max (set [- 5, 50 :: rat])
   \<and> map_sum id (\<lambda>r. covered (snd r) (- 5))
        (create_dist \<lparr>nrows = 2, columns = [(''x'', [- 5, 50])]\<rparr> ''x'' (Rgba 0 0 143 (8 / 10))
           None (1 / 10)) = Inr False"
proof -
  have col: "getcol \<lparr>nrows = 2, columns = [(''x'', [- 5, 50])]\<rparr> ''x'' = Inr [- 5, 50]"
    by (simp add: getcol_def)
  have m: "0 < Max (set [- 5, 50 :: rat])" by simp
  note e = create_dist_None_edges [OF col _ m, of "1 / 10"]
  have "(- 5 :: rat) < 0" by simp
  from e(1) [of "Rgba 0 0 143 (8 / 10)"] e(7) [OF _ _ _ this] col m show ?thesis by simp
qed

section \<open>The category column written by \<^verbatim>\<open>cat_clients\<close>\<close>

lemma criteria_loop_present:
  assumes "getcol df x_var = Inr s"
  shows "criteria_loop df x_var x_bar rest criteria =
           Inr (criteria @ map (\<lambda>i. between s (x_bar ! i) (x_bar ! (i + 1))) rest)"
  using assms by (induction rest arbitrary: criteria) simp_all

lemma criteria_loop_absent:
  assumes "getcol df x_var = Inl e" and "rest \<noteq> []"
  shows "criteria_loop df x_var x_bar rest criteria = Inl e"
  using assms by (cases rest) simp_all

lemma np_select_between:
  assumes "2 \<le> length x_bar"
  shows "np_select (map (\<lambda>i. between s (x_bar ! i) (x_bar ! (i + 1))) [0..<length x_bar - 1])
           [0..<length x_bar - 1] 0 = Inr (map (cat_of x_bar) s)"
proof -
  let ?n = "length x_bar - 1"
  let ?criteria = "map (\<lambda>i. between s (x_bar ! i) (x_bar ! (i + 1))) [0..<?n]"
  have n: "0 < ?n" using assms by simp
  then have ne: "?criteria \<noteq> []" by simp
  have hd: "length (hd ?criteria) = length s"
    using n by (simp add: hd_map upt_conv_Cons between_def)
  have row: "(case find (\<lambda>i. ?criteria ! i ! j) [0..<?n] of
                None \<Rightarrow> 0 | Some i \<Rightarrow> [0..<?n] ! i) = cat_of x_bar (s ! j)"
    if j: "j < length s" for j
  proof -
    have "find (\<lambda>i. ?criteria ! i ! j) [0..<?n]
        = find (\<lambda>i. x_bar ! i \<le> s ! j \<and> s ! j \<le> x_bar ! (i + 1)) [0..<?n]"
      using j by (intro find_cong) (simp_all add: between_def)
    moreover have "[0..<?n] ! i = i"
      if "find (\<lambda>i. x_bar ! i \<le> s ! j \<and> s ! j \<le> x_bar ! (i + 1)) [0..<?n] = Some i" for i
      using that by (auto simp: find_Some_iff)
    ultimately show ?thesis by (auto simp: cat_of_def split: option.splits)
  qed
  have "map (\<lambda>j. case find (\<lambda>i. ?criteria ! i ! j) [0..<?n] of
                None \<Rightarrow> 0 | Some i \<Rightarrow> [0..<?n] ! i) [0..<length s]
        = map (\<lambda>j. cat_of x_bar (s ! j)) [0..<length s]"
    by (rule map_cong) (simp_all add: row del: One_nat_def)
  also have "\<dots> = map (cat_of x_bar) s" by (rule nth_equalityI) simp_all
  finally show ?thesis
    using ne by (simp add: np_select_def hd del: One_nat_def)
qed

lemma cat_clients_present:
  assumes "getcol (h df) x_var = Inr s" and "2 \<le> length x_bar"
  shows "cat_clients h df x_var x_bar =
           Inr (df, h(df := setcol (h df) ''cat'' (map (\<lambda>v. of_nat (cat_of x_bar v)) s)))"
  using assms
  by (simp add: cat_clients_def criteria_loop_present np_select_between comp_def del: One_nat_def)

lemma cat_clients_few_edges:
  assumes "length x_bar < 2"
  shows "cat_clients h df x_var x_bar = Inl ValueError"
proof -
  from assms have "[0..<length x_bar - 1] = []" by simp
  then show ?thesis by (simp add: cat_clients_def np_select_def)
qed

lemma cat_clients_absent:
  assumes "getcol (h df) x_var = Inl e" and "2 \<le> length x_bar"
  shows "cat_clients h df x_var x_bar = Inl e"
proof -
  from assms(2) have "[0..<length x_bar - 1] \<noteq> []" by simp
  from criteria_loop_absent [OF assms(1) this] show ?thesis by (simp add: cat_clients_def)
qed

lemma getcol_cases: "(\<exists>s. getcol df name = Inr s) \<or> getcol df name = Inl (KeyError name)"
  by (simp add: getcol_def split: option.splits)

lemma cat_clients_Inr_iff:
  "cat_clients h df x_var x_bar = Inr r \<longleftrightarrow>
     (\<exists>s. getcol (h df) x_var = Inr s \<and> 2 \<le> length x_bar \<and>
          r = (df, h(df := setcol (h df) ''cat'' (map (\<lambda>v. of_nat (cat_of x_bar v)) s))))"
proof (cases "2 \<le> length x_bar")
  case False
  then show ?thesis by (simp add: cat_clients_few_edges)
next
  case True
  show ?thesis
    using getcol_cases [of "h df" x_var] True
    by (auto simp: cat_clients_present cat_clients_absent)
qed

lemma getcol_setcol:
  "getcol (setcol df name c) name' = (if name' = name then Inr c else getcol df name')"
  by (simp add: getcol_def setcol_def update_conv')

lemma update_absent: "k \<notin> fst ` set al \<Longrightarrow> AList.update k v al = al @ [(k, v)]"
  by (induction al) auto

lemma columns_setcol:
  "columns (setcol df name c) =
     (if name \<in> fst ` set (columns df) then AList.update name c (columns df)
      else columns df @ [(name, c)])"
  by (simp add: setcol_def update_absent)

text \<open>
  C10 (amended). \<^verbatim>\<open>cat_clients\<close> mutates the caller's frame in place and returns that same
  frame: the reference returned is the one passed, no other frame of the store changes, the
  row count and every column other than \<open>cat\<close> are unchanged, and the column \<open>cat\<close> holds the
  category of each row. When the frame had no column \<open>cat\<close>, exactly that one column is
  added, after the others; when it had one, that column is overwritten and none is added.
\<close>

theorem cat_clients_frame:
  assumes "cat_clients h df x_var x_bar = Inr (df', h')"
  shows "df' = df \<and> (\<forall>r. r \<noteq> df \<longrightarrow> h' r = h r)
       \<and> nrows (h' df) = nrows (h df)
       \<and> (\<forall>name. name \<noteq> ''cat'' \<longrightarrow> getcol (h' df) name = getcol (h df) name)
       \<and> (\<exists>s. getcol (h df) x_var = Inr s
              \<and> getcol (h' df) ''cat'' = Inr (map (\<lambda>v. of_nat (cat_of x_bar v)) s)
              \<and> (''cat'' \<notin> fst ` set (columns (h df)) \<longrightarrow>
                   columns (h' df) = columns (h df) @ [(''cat'', map (\<lambda>v. of_nat (cat_of x_bar v)) s)])
              \<and> (''cat'' \<in> fst ` set (columns (h df)) \<longrightarrow>
                   map fst (columns (h' df)) = map fst (columns (h df))))"
proof -
  from assms obtain s where s: "getcol (h df) x_var = Inr s"
    and r: "df' = df" "h' = h(df := setcol (h df) ''cat'' (map (\<lambda>v. of_nat (cat_of x_bar v)) s))"
    unfolding cat_clients_Inr_iff by auto
  have keys: "map fst (columns (h' df)) = map fst (columns (h df))"
    if "''cat'' \<in> fst ` set (columns (h df))"
    using that by (simp add: r setcol_def update_keys)
  show ?thesis
    using s keys by (simp add: r getcol_setcol columns_setcol) (simp add: setcol_def)
qed


text \<open>A call on a frame of two rows without a column \<open>cat\<close>.\<close>

theorem cat_clients_frame_witness:
  "cat_clients (\<lambda>_. \<lparr>nrows = 2, columns = [(''x'', [1, 3])]\<rparr>) 0 ''x'' [0, 2, 4]
     = Inr (0, (\<lambda>_. \<lparr>nrows = 2, columns = [(''x'', [1, 3])]\<rparr>)
                 (0 := \<lparr>nrows = 2, columns = [(''x'', [1, 3]), (''cat'', [0, 1])]\<rparr>))
   \<and> getcol \<lparr>nrows = 2, columns = [(''x'', [1, 3]), (''cat'', [0, 1])]\<rparr> ''x'' = Inr [1, 3]
   \<and> nrows \<lparr>nrows = 2, columns = [(''x'', [1, 3]), (''cat'', [0, 1])]\<rparr> = 2"
proof -
  let ?h = "\<lambda>_::nat. \<lparr>nrows = 2, columns = [(''x'', [1, 3])]\<rparr>"
  let ?d = "\<lparr>nrows = 2, columns = [(''x'', [1, 3]), (''cat'', [0, 1])]\<rparr>"
  have col: "getcol (?h 0) ''x'' = Inr [1, 3]" by (simp add: getcol_def)
  have cats: "cat_of [0, 2, 4] 1 = 0" "cat_of [0, 2, 4] 3 = 1"
    by (simp_all add: cat_of_def upt_conv_Cons)
  have run: "cat_clients ?h 0 ''x'' [0, 2, 4] = Inr (0, ?h(0 := ?d))"
    using cat_clients_present [of ?h 0 "''x''" "[1, 3]" "[0, 2, 4]"] col
    by (simp add: cats setcol_def)
  from cat_clients_frame [OF run] have "getcol ((?h(0 := ?d)) 0) ''x'' = getcol (?h 0) ''x''"
    and "nrows ((?h(0 := ?d)) 0) = nrows (?h 0)" by simp_all
  with run col show ?thesis by simp
qed

text \<open>
  On a frame that already has a column \<open>cat\<close> (as after an earlier call on the same frame)
  no column is added and the values of that column change, here from 7 to 0.
\<close>

theorem cat_clients_overwrites_cat_column:
  "cat_clients (\<lambda>_. \<lparr>nrows = 1, columns = [(''x'', [1]), (''cat'', [7])]\<rparr>) 0 ''x'' [0, 2]
     = Inr (0, (\<lambda>_. \<lparr>nrows = 1, columns = [(''x'', [1]), (''cat'', [7])]\<rparr>)
                 (0 := \<lparr>nrows = 1, columns = [(''x'', [1]), (''cat'', [0])]\<rparr>))"
proof -
  let ?h = "\<lambda>_::nat. \<lparr>nrows = 1, columns = [(''x'', [1]), (''cat'', [7])]\<rparr>"
  have col: "getcol (?h 0) ''x'' = Inr [1]" by (simp add: getcol_def)
  have cats: "cat_of [0, 2] 1 = 0"
    by (simp add: cat_of_def upt_conv_Cons)
  show ?thesis using cat_clients_present [of ?h 0 "''x''" "[1]" "[0, 2]"] col
    by (simp add: cats setcol_def)
qed

text \<open>
  C3. With the edges \<open>[0, 1, 2]\<close> the histogram counts the value 1, which is an inner edge,
  in the interval of index 1 and counts neither 5 nor -1, while \<^verbatim>\<open>cat_clients\<close> writes
  the category 0 for all three rows.
\<close>

theorem cat_differs_from_histogram_bin:
  "np_histogram [1, 5, - 1] [0, 1, 2] = Inr [0, 1]
   \<and> cat_clients (\<lambda>_. \<lparr>nrows = 3, columns = [(''x'', [1, 5, - 1])]\<rparr>) 0 ''x'' [0, 1, 2]
     = Inr (0, (\<lambda>_. \<lparr>nrows = 3, columns = [(''x'', [1, 5, - 1])]\<rparr>)
                 (0 := \<lparr>nrows = 3, columns = [(''x'', [1, 5, - 1]), (''cat'', [0, 0, 0])]\<rparr>))"
proof -
  let ?h = "\<lambda>_::nat. \<lparr>nrows = 3, columns = [(''x'', [1, 5, - 1])]\<rparr>"
  have col: "getcol (?h 0) ''x'' = Inr [1, 5, - 1]" by (simp add: getcol_def)
  have cats: "cat_of [0, 1, 2] 1 = 0" "cat_of [0, 1, 2] 5 = 0" "cat_of [0, 1, 2] (- 1) = 0"
    by (simp_all add: cat_of_def upt_conv_Cons)
  have hist: "np_histogram [1, 5, - 1] [0, 1, 2] = Inr [0, 1]"
    by (simp add: np_histogram_def increasing_def in_bin_def upt_conv_Cons)
  have "cat_clients ?h 0 ''x'' [0, 1, 2]
     = Inr (0, ?h(0 := \<lparr>nrows = 3, columns = [(''x'', [1, 5, - 1]), (''cat'', [0, 0, 0])]\<rparr>))"
    using cat_clients_present [of ?h 0 "''x''" "[1, 5, - 1]" "[0, 1, 2]"] col
    by (simp add: cats setcol_def)
  with hist show ?thesis by simp
qed

section \<open>Averages per category: \<^verbatim>\<open>avg_cats\<close>\<close>

lemma getcol_absent_iff: "getcol df name = Inl e \<longleftrightarrow> \<not> has_column df name \<and> e = KeyError name"
  by (auto simp: getcol_def has_column_def map_of_eq_None_iff split: option.splits
      dest: map_of_SomeD intro: rev_image_eqI)

lemma getcol_present: "has_column df name \<Longrightarrow> \<exists>s. getcol df name = Inr s"
  using getcol_absent_iff [of df name] by (cases "getcol df name") auto

lemma getcol_length:
  assumes "wf_df df" and "getcol df name = Inr s"
  shows "length s = nrows df"
proof -
  from assms(2) have "map_of (columns df) name = Some s"
    by (simp add: getcol_def split: option.splits)
  then have "(name, s) \<in> set (columns df)" by (rule map_of_SomeD)
  with assms(1) show ?thesis by (auto simp: wf_df_def list_all_iff)
qed

lemma getcol_reorder:
  "getcol (reorder df order) name = map_sum id (\<lambda>c. map (\<lambda>i. c ! i) order) (getcol df name)"
proof -
  have "map_of (map (\<lambda>(name, c). (name, map (\<lambda>i. c ! i) order)) (columns df)) name
      = map_option (\<lambda>c. map (\<lambda>i. c ! i) order) (map_of (columns df) name)"
    by (simp add: map_of_map)
  then show ?thesis by (simp add: getcol_def reorder_def split: option.splits)
qed




lemma sort_values_present:
  assumes "getcol df by_col = Inr key"
  shows "sort_values df by_col = Inr (reorder df (sort_key (\<lambda>i. key ! i) [0..<nrows df]))"
  using assms by (simp add: sort_values_def)



lemma avg_cats_absent:
  assumes "\<not> has_column df ''pr_total''"
  shows "avg_cats df x_var y_var = Inl (KeyError ''pr_total'')"
proof -
  from assms have "getcol df ''pr_total'' = Inl (KeyError ''pr_total'')"
    by (simp add: getcol_absent_iff)
  then show ?thesis by (simp add: avg_cats_def sort_values_def)
qed










section \<open>Runs of \<^verbatim>\<open>create_figure\<close>\<close>

lemma find_color_fresh:
  "find_color entropy pos [] =
     Returns (AXA_colors ! randint entropy pos 0 8, [randint entropy pos 0 8], Suc pos)"
proof -
  have "retry entropy [] pos = Some (randint entropy pos 0 8, Suc pos)"
    by (subst retry.simps) simp
  then show ?thesis by (simp add: find_color_def)
qed


lemma second_axis_None:
  "second_axis entropy df x_var None x_bar data layout color_used pos =
     Returns (data, layout, color_used, pos, x_bar)"
  by (simp add: second_axis_def)

lemma second_axis_Some_Returns_iff:
  "second_axis entropy df x_var (Some s) x_bar data layout color_used pos = Returns r \<longleftrightarrow>
     (\<exists>x2 y2 color2 color_used' pos' trace_bar2 x_bar'.
        avg_cats df x_var s = Inr (x2, y2)
      \<and> find_color entropy pos color_used = Returns (color2, color_used', pos')
      \<and> create_dist df s color2 (Some x_bar) (1 / 10) = Inr (trace_bar2, x_bar')
      \<and> r = (data @ [create_scatter x2 y2 (Text s) color2 2, trace_bar2],
             layout\<lparr>yaxis2 := Some (Axis s ''y1'' ''right'')\<rparr>, color_used', pos', x_bar'))"
  by (auto simp: second_axis_def and_then_Returns_iff lift_Returns_iff Let_def)

lemma categorical_None:
  "categorical entropy df None x_var y_var x_bar data color_used pos = Returns data"
  by (simp add: categorical_def)

lemma categorical_Some_Returns_iff:
  "categorical entropy df (Some cv) x_var y_var x_bar data color_used pos = Returns r \<longleftrightarrow>
     (\<exists>trace_cats color_used' pos'.
        create_cat_plots entropy pos df cv x_var y_var x_bar color_used
          = Returns (trace_cats, color_used', pos')
      \<and> r = data @ trace_cats)"
  by (auto simp: categorical_def and_then_Returns_iff)


lemma create_figure_ReturnsD:
  assumes "create_figure entropy pos h df x_var y_var x_title y_title title second_y_var
             categorical_var stack_bar = Returns (plot, h')"
  shows "\<exists>color color_used pos1 trace_bar x_bar x y data2 layout2 color_used2 pos2 x_bar2 data3.
      find_color entropy pos [] = Returns (color, color_used, pos1)
    \<and> create_dist (h df) x_var color None (1 / 10) = Inr (trace_bar, x_bar)
    \<and> cat_clients h df x_var x_bar = Inr (df, h')
    \<and> avg_cats (h' df) x_var y_var = Inr (x, y)
    \<and> second_axis entropy (h' df) x_var second_y_var x_bar
          [trace_bar, create_scatter x y (Text x_var) color 1]
          \<lparr>layout_title = title, xaxis = (x_title, True), yaxis = y_title,
            barmode = (if stack_bar then Some ''stack'' else None), yaxis2 = None\<rparr>
          color_used pos1 = Returns (data2, layout2, color_used2, pos2, x_bar2)
    \<and> categorical entropy (h' df) categorical_var x_var y_var x_bar2 data2 color_used2 pos2
          = Returns data3
    \<and> plot = \<lparr>plot_data = data3, plot_layout = layout2, filename = output_file title\<rparr>"
  using assms
  apply (simp only: create_figure_def Let_def and_then_Returns_iff lift_Returns_iff)
  apply (elim exE conjE)
  apply (simp only: split_paired_all prod.case and_then_Returns_iff lift_Returns_iff)
  apply (elim exE conjE)
  apply (simp only: split_paired_all prod.case and_then_Returns_iff lift_Returns_iff)
  apply (elim exE conjE)
  apply (simp only: split_paired_all prod.case and_then_Returns_iff lift_Returns_iff)
  apply (elim exE conjE)
  apply (simp only: split_paired_all prod.case and_then_Returns_iff lift_Returns_iff)
  apply (elim exE conjE)
  apply (simp only: split_paired_all prod.case and_then_Returns_iff lift_Returns_iff)
  apply (elim exE conjE)
  apply (clarsimp simp: cat_clients_Inr_iff simp del: One_nat_def split del: if_split)
  done


lemma create_figure_ReturnsI:
  assumes "find_color entropy pos [] = Returns (color, color_used, pos1)"
    and "create_dist (h df) x_var color None (1 / 10) = Inr (trace_bar, x_bar)"
    and "cat_clients h df x_var x_bar = Inr (df, h')"
    and "avg_cats (h' df) x_var y_var = Inr (x, y)"
    and "second_axis entropy (h' df) x_var second_y_var x_bar
          [trace_bar, create_scatter x y (Text x_var) color 1]
          \<lparr>layout_title = title, xaxis = (x_title, True), yaxis = y_title,
            barmode = (if stack_bar then Some ''stack'' else None), yaxis2 = None\<rparr>
          color_used pos1 = Returns (data2, layout2, color_used2, pos2, x_bar2)"
    and "categorical entropy (h' df) categorical_var x_var y_var x_bar2 data2 color_used2 pos2
          = Returns data3"
  shows "create_figure entropy pos h df x_var y_var x_title y_title title second_y_var
           categorical_var stack_bar
         = Returns (\<lparr>plot_data = data3, plot_layout = layout2, filename = output_file title\<rparr>, h')"
  using assms
  by (simp add: create_figure_def Let_def and_then_def lift_def del: One_nat_def split del: if_split)

lemma avg_cats_returns:
  assumes "has_column df ''pr_total''" and "has_column df ''cat''"
    and "has_column df x_var" and "has_column df y_var"
  shows "\<exists>x y. avg_cats df x_var y_var = Inr (x, y)"
proof -
  from assms obtain key cs xs ys where
    "getcol df ''pr_total'' = Inr key" "getcol df ''cat'' = Inr cs"
    "getcol df x_var = Inr xs" "getcol df y_var = Inr ys"
    using getcol_present by metis
  then show ?thesis
    by (simp add: avg_cats_def sort_values_def groupby_mean_def getcol_reorder)
qed

lemma avg_cats_Inr_columns:
  assumes "avg_cats df x_var y_var = Inr r"
  shows "has_column df ''pr_total''" and "has_column df ''cat''"
    and "has_column df x_var" and "has_column df y_var"
proof -
  show p: "has_column df ''pr_total''"
    using assms avg_cats_absent [of df x_var y_var] by auto
  then obtain key where key: "getcol df ''pr_total'' = Inr key" using getcol_present by blast
  from assms have g: "\<exists>x y. groupby_mean (reorder df (sort_key (\<lambda>i. key ! i) [0..<nrows df])) ''cat'' x_var = Inr x
       \<and> groupby_mean (reorder df (sort_key (\<lambda>i. key ! i) [0..<nrows df])) ''cat'' y_var = Inr y"
    by (auto simp: avg_cats_def sort_values_present [OF key] try_then_Inr_iff)
  have col: "has_column df k" if "groupby_mean (reorder df order) k v = Inr x" for order k v x
    using that getcol_absent_iff [of df k]
    by (cases "getcol df k") (auto simp: groupby_mean_def getcol_reorder)
  have var: "has_column df v" if "groupby_mean (reorder df order) k v = Inr x" for order k v x
    using that getcol_absent_iff [of df v]
    by (cases "getcol df k"; cases "getcol df v") (auto simp: groupby_mean_def getcol_reorder)
  from g col show "has_column df ''cat''" by blast
  from g var show "has_column df x_var" "has_column df y_var" by blast+
qed

lemma has_column_setcol:
  "has_column (setcol df name c) name' \<longleftrightarrow> name' = name \<or> has_column df name'"
  using dom_update [of name c "columns df"] by (auto simp: has_column_def setcol_def)

lemma create_dist_Some_Inr_iff:
  "create_dist df x_var color (Some x_bar) interval_perc = Inr r \<longleftrightarrow>
     (\<exists>s. getcol df x_var = Inr s \<and> increasing x_bar
        \<and> r = (Bar x_bar (bar_heights (map (\<lambda>i. length (filter (in_bin x_bar i) s))
                                        [0..<length x_bar - 1]) (nrows df))
                  color (3 / 10) (Text (''Dist. '' @ x_var)), x_bar))"
  by (cases "getcol df x_var")
     (auto simp: create_dist_def np_histogram_def Let_def simp del: One_nat_def)

lemma create_dist_Inr_increasing:
  assumes "create_dist df x_var color x_bar0 interval_perc = Inr (trace, x_bar)"
  shows "increasing x_bar" and "bar_x trace = x_bar"
  using assms
  by (auto simp: create_dist_def try_then_Inr_iff np_histogram_def Let_def
      split: if_splits option.splits)


lemma find_color_returns:
  assumes "randint entropy (pos + k) 0 8 \<notin> set color_used"
  shows "\<exists>temp pos'. find_color entropy pos color_used
                        = Returns (AXA_colors ! temp, color_used @ [temp], pos')
                     \<and> temp < 8 \<and> temp \<notin> set color_used"
proof -
  from retry_after [OF assms] obtain j where
    "retry entropy color_used pos = Some (randint entropy (pos + j) 0 8, Suc (pos + j))"
    "randint entropy (pos + j) 0 8 \<notin> set color_used" by blast
  then show ?thesis by (simp add: find_color_def randint_0_8_less)
qed

lemma create_dist_None_returns:
  assumes "getcol df x_var = Inr s" and "s \<noteq> []" and "0 < Max (set s)"
    and "0 < interval_perc" and "interval_perc \<le> 1"
  shows "\<exists>trace x_bar. create_dist df x_var color None interval_perc = Inr (trace, x_bar)
           \<and> 2 \<le> length x_bar"
  using create_dist_None_edges(1,2) [OF assms] by blast

lemma create_figure_returns:
  assumes col: "getcol (h df) x_var = Inr s" "s \<noteq> []" "0 < Max (set s)"
    and y: "has_column (h df) y_var" and pr: "has_column (h df) ''pr_total''"
    and second: "case second_y_var of
                   None \<Rightarrow> True
                 | Some s2 \<Rightarrow> has_column (h df) s2
                     \<and> (\<exists>k. randint entropy (Suc pos + k) 0 8 \<noteq> randint entropy pos 0 8)"
  shows "\<exists>plot h'. create_figure entropy pos h df x_var y_var x_title y_title title second_y_var
                     None stack_bar = Returns (plot, h')"
proof -
  let ?d = "randint entropy pos 0 8"
  let ?color = "AXA_colors ! ?d"
  from create_dist_None_returns [OF col, of "1 / 10" ?color] obtain trace_bar x_bar where
    cd: "create_dist (h df) x_var ?color None (1 / 10) = Inr (trace_bar, x_bar)"
    and len: "2 \<le> length x_bar"
    by auto
  define h' where "h' = h(df := setcol (h df) ''cat'' (map (\<lambda>v. of_nat (cat_of x_bar v)) s))"
  have cc: "cat_clients h df x_var x_bar = Inr (df, h')"
    unfolding h'_def using col(1) len by (rule cat_clients_present [of h df])
  have cols: "has_column (h' df) n \<longleftrightarrow> n = ''cat'' \<or> has_column (h df) n" for n
    by (simp add: h'_def has_column_setcol)
  have x: "has_column (h df) x_var"
    using col(1) getcol_absent_iff [of "h df" x_var] by auto
  from avg_cats_returns [of "h' df" x_var y_var] obtain ax ay where
    av: "avg_cats (h' df) x_var y_var = Inr (ax, ay)"
    using x y pr by (auto simp: cols)
  let ?data = "[trace_bar, create_scatter ax ay (Text x_var) ?color 1]"
  let ?layout = "\<lparr>layout_title = title, xaxis = (x_title, True), yaxis = y_title,
            barmode = (if stack_bar then Some ''stack'' else None), yaxis2 = None\<rparr>"
  have "\<exists>r. second_axis entropy (h' df) x_var second_y_var x_bar ?data ?layout [?d] (Suc pos)
          = Returns r"
  proof (cases second_y_var)
    case None
    then show ?thesis by (simp add: second_axis_None)
  next
    case (Some s2)
    with second have s2: "has_column (h df) s2"
      and k: "\<exists>k. randint entropy (Suc pos + k) 0 8 \<notin> set [?d]" by auto
    from avg_cats_returns [of "h' df" x_var s2] obtain x2 y2 where
      "avg_cats (h' df) x_var s2 = Inr (x2, y2)"
      using x s2 pr by (auto simp: cols)
    moreover from k find_color_returns obtain temp pos' where
      "find_color entropy (Suc pos) [?d] = Returns (AXA_colors ! temp, [?d] @ [temp], pos')"
      by blast
    moreover from s2 have "has_column (h' df) s2" by (simp add: cols)
    then obtain c2 where "getcol (h' df) s2 = Inr c2" using getcol_present by blast
    then have "\<exists>r. create_dist (h' df) s2 (AXA_colors ! temp) (Some x_bar) (1 / 10) = Inr (r, x_bar)"
      using create_dist_Inr_increasing(1) [OF cd] by (simp add: create_dist_Some_Inr_iff)
    ultimately show ?thesis
      unfolding Some second_axis_Some_Returns_iff by blast
  qed
  then obtain data2 layout2 color_used2 pos2 x_bar2 where
    sa: "second_axis entropy (h' df) x_var second_y_var x_bar ?data ?layout [?d] (Suc pos)
          = Returns (data2, layout2, color_used2, pos2, x_bar2)"
    by (metis prod_cases5)
  have ca: "categorical entropy (h' df) None x_var y_var x_bar2 data2 color_used2 pos2 = Returns data2"
    by (rule categorical_None)
  from create_figure_ReturnsI [OF find_color_fresh cd cc av sa ca] show ?thesis by blast
qed






lemma create_scatter_axis:
  "create_scatter x y var_name color 1 = Scatter x y ''lines+markers'' color var_name ''y1''"
  "create_scatter x y var_name color 2 = Scatter x y ''lines+markers'' color var_name ''y2''"
  by (simp_all add: create_scatter_def str_nat.simps)

text \<open>
  C6. Whenever \<^verbatim>\<open>create_figure\<close> reaches the call of \<^verbatim>\<open>plotly.offline.plot\<close>, the
  \<^verbatim>\<open>filename\<close> argument is the fixed Windows path of the \<^verbatim>\<open>output_file\<close> directory followed
  by the title and \<^verbatim>\<open>.html\<close>, whatever the other arguments are.
\<close>

theorem create_figure_output_path:
  assumes "create_figure entropy pos h df x_var y_var x_title y_title title second_y_var
             categorical_var stack_bar = Returns (plot, h')"
  shows "filename plot =
           ''C:'' @ [CHR 0x5C] @ ''Users'' @ [CHR 0x5C] @ ''a-garde'' @ [CHR 0x5C]
             @ ''PycharmProjects'' @ [CHR 0x5C] @ ''Plotly-Graph'' @ [CHR 0x5C] @ ''output_file''
             @ [CHR 0x5C] @ title @ ''.html''"
  using create_figure_ReturnsD [OF assms] by (auto simp: output_file_def)

text \<open>A run that reaches the call, with the title \<^verbatim>\<open>demo\<close>.\<close>

theorem create_figure_output_path_witness:
  "\<exists>plot h'.
     create_figure (\<lambda>i. i) 0
       (\<lambda>_. \<lparr>nrows = 3, columns = [(''x'', [10, 30, 50]), (''y'', [2, 4, 6]),
                                  (''pr_total'', [9, 8, 7])]\<rparr>) 0
       ''x'' ''y'' ''X'' ''Y'' ''demo'' None None False = Returns (plot, h')
     \<and> filename plot =
           ''C:'' @ [CHR 0x5C] @ ''Users'' @ [CHR 0x5C] @ ''a-garde'' @ [CHR 0x5C]
             @ ''PycharmProjects'' @ [CHR 0x5C] @ ''Plotly-Graph'' @ [CHR 0x5C] @ ''output_file''
             @ [CHR 0x5C] @ ''demo'' @ ''.html''"
proof -
  let ?h = "\<lambda>_::nat. \<lparr>nrows = 3, columns = [(''x'', [10, 30, 50]), (''y'', [2, 4, 6]),
                                  (''pr_total'', [9, 8, 7 :: rat])]\<rparr>"
  have "getcol (?h 0) ''x'' = Inr [10, 30, 50]" by (simp add: getcol_def)
  moreover have "has_column (?h 0) ''y''" "has_column (?h 0) ''pr_total''"
    by (simp_all add: has_column_def)
  ultimately obtain plot h' where
    run: "create_figure (\<lambda>i. i) 0 ?h 0 ''x'' ''y'' ''X'' ''Y'' ''demo'' None None False
            = Returns (plot, h')"
    using create_figure_returns [where h = ?h and df = 0 and x_var = "''x''"
        and s = "[10, 30, 50]" and y_var = "''y''" and second_y_var = None
        and entropy = "\<lambda>i. i" and pos = 0 and x_title = "''X''" and y_title = "''Y''"
        and title = "''demo''" and stack_bar = False]
    by auto
  from create_figure_output_path [OF run] run show ?thesis by blast
qed


lemma categorical_Returns_cases:
  assumes "categorical entropy df categorical_var x_var y_var x_bar data color_used pos = Returns data3"
  shows "\<exists>cats. data3 = data @ cats \<and> (categorical_var = None \<longrightarrow> cats = [])
           \<and> (\<forall>cv. categorical_var = Some cv \<longrightarrow>
                 (\<exists>color_used' pos'. create_cat_plots entropy pos df cv x_var y_var x_bar color_used
                                        = Returns (cats, color_used', pos')))"
proof (cases categorical_var)
  case None
  with assms show ?thesis by (simp add: categorical_None)
next
  case (Some cv)
  with assms show ?thesis unfolding Some categorical_Some_Returns_iff by auto
qed

lemma create_figure_without_second:
  assumes "create_figure entropy pos h r x_var y_var x_title y_title title None categorical_var
             stack_bar = Returns (plot, h')"
  shows "yaxis2 (plot_layout plot) = None
    \<and> (\<exists>trace_bar x_bar x y cats.
         create_dist (h r) x_var (AXA_colors ! randint entropy pos 0 8) None (1 / 10)
           = Inr (trace_bar, x_bar)
       \<and> cat_clients h r x_var x_bar = Inr (r, h')
       \<and> avg_cats (h' r) x_var y_var = Inr (x, y)
       \<and> plot_data plot = [trace_bar, Scatter x y ''lines+markers''
                                         (AXA_colors ! randint entropy pos 0 8) (Text x_var) ''y1'']
                           @ cats
       \<and> (categorical_var = None \<longrightarrow> cats = [])
       \<and> (\<forall>cv. categorical_var = Some cv \<longrightarrow>
             (\<exists>color_used pos1 color_used' pos'.
                create_cat_plots entropy pos1 (h' r) cv x_var y_var x_bar color_used
                  = Returns (cats, color_used', pos'))))"
proof -
  from create_figure_ReturnsD [OF assms] obtain color color_used pos1 trace_bar x_bar x y
      data2 layout2 color_used2 pos2 x_bar2 data3 where
    fc: "find_color entropy pos [] = Returns (color, color_used, pos1)"
    and cd: "create_dist (h r) x_var color None (1 / 10) = Inr (trace_bar, x_bar)"
    and cc: "cat_clients h r x_var x_bar = Inr (r, h')"
    and av: "avg_cats (h' r) x_var y_var = Inr (x, y)"
    and sa: "second_axis entropy (h' r) x_var None x_bar
          [trace_bar, create_scatter x y (Text x_var) color 1]
          \<lparr>layout_title = title, xaxis = (x_title, True), yaxis = y_title,
            barmode = (if stack_bar then Some ''stack'' else None), yaxis2 = None\<rparr>
          color_used pos1 = Returns (data2, layout2, color_used2, pos2, x_bar2)"
    and ca: "categorical entropy (h' r) categorical_var x_var y_var x_bar2 data2 color_used2 pos2
          = Returns data3"
    and pl: "plot = \<lparr>plot_data = data3, plot_layout = layout2, filename = output_file title\<rparr>"
    by blast
  from fc have color: "color = AXA_colors ! randint entropy pos 0 8"
    by (simp add: find_color_fresh)
  from sa have d2: "data2 = [trace_bar, create_scatter x y (Text x_var) color 1]"
    and l2: "yaxis2 layout2 = None" and xb: "x_bar2 = x_bar"
    by (auto simp: second_axis_None simp del: One_nat_def)
  from categorical_Returns_cases [OF ca] obtain cats where
    "data3 = data2 @ cats" "categorical_var = None \<longrightarrow> cats = []"
    "\<forall>cv. categorical_var = Some cv \<longrightarrow>
       (\<exists>color_used' pos'. create_cat_plots entropy pos2 (h' r) cv x_var y_var x_bar2 color_used2
                               = Returns (cats, color_used', pos'))"
    by blast
  with cd cc av l2 show ?thesis
    unfolding pl d2 xb color create_scatter_axis by (simp del: One_nat_def) blast
qed

lemma create_figure_with_second:
  assumes "create_figure entropy pos h r x_var y_var x_title y_title title (Some s) categorical_var
             stack_bar = Returns (plot, h')"
  shows "yaxis2 (plot_layout plot) = Some (Axis s ''y1'' ''right'')
    \<and> (\<exists>trace_bar x_bar x y x2 y2 color2 y_bar2 cats.
         create_dist (h r) x_var (AXA_colors ! randint entropy pos 0 8) None (1 / 10)
           = Inr (trace_bar, x_bar)
       \<and> cat_clients h r x_var x_bar = Inr (r, h')
       \<and> avg_cats (h' r) x_var y_var = Inr (x, y)
       \<and> avg_cats (h' r) x_var s = Inr (x2, y2)
       \<and> create_dist (h' r) s color2 (Some x_bar) (1 / 10)
           = Inr (Bar x_bar y_bar2 color2 (3 / 10) (Text (''Dist. '' @ s)), x_bar)
       \<and> plot_data plot = [trace_bar,
                           Scatter x y ''lines+markers''
                             (AXA_colors ! randint entropy pos 0 8) (Text x_var) ''y1'',
                           Scatter x2 y2 ''lines+markers'' color2 (Text s) ''y2'',
                           Bar x_bar y_bar2 color2 (3 / 10) (Text (''Dist. '' @ s))]
                           @ cats
       \<and> (categorical_var = None \<longrightarrow> cats = [])
       \<and> (\<forall>cv. categorical_var = Some cv \<longrightarrow>
             (\<exists>color_used pos1 color_used' pos'.
                create_cat_plots entropy pos1 (h' r) cv x_var y_var x_bar color_used
                  = Returns (cats, color_used', pos'))))"
proof -
  from create_figure_ReturnsD [OF assms] obtain color color_used pos1 trace_bar x_bar x y
      data2 layout2 color_used2 pos2 x_bar2 data3 where
    fc: "find_color entropy pos [] = Returns (color, color_used, pos1)"
    and cd: "create_dist (h r) x_var color None (1 / 10) = Inr (trace_bar, x_bar)"
    and cc: "cat_clients h r x_var x_bar = Inr (r, h')"
    and av: "avg_cats (h' r) x_var y_var = Inr (x, y)"
    and sa: "second_axis entropy (h' r) x_var (Some s) x_bar
          [trace_bar, create_scatter x y (Text x_var) color 1]
          \<lparr>layout_title = title, xaxis = (x_title, True), yaxis = y_title,
            barmode = (if stack_bar then Some ''stack'' else None), yaxis2 = None\<rparr>
          color_used pos1 = Returns (data2, layout2, color_used2, pos2, x_bar2)"
    and ca: "categorical entropy (h' r) categorical_var x_var y_var x_bar2 data2 color_used2 pos2
          = Returns data3"
    and pl: "plot = \<lparr>plot_data = data3, plot_layout = layout2, filename = output_file title\<rparr>"
    by blast
  from fc have color: "color = AXA_colors ! randint entropy pos 0 8"
    by (simp add: find_color_fresh)
  from sa obtain x2 y2 color2 trace_bar2 where
    av2: "avg_cats (h' r) x_var s = Inr (x2, y2)"
    and cd2: "create_dist (h' r) s color2 (Some x_bar) (1 / 10) = Inr (trace_bar2, x_bar2)"
    and d2: "data2 = [trace_bar, create_scatter x y (Text x_var) color 1]
                      @ [create_scatter x2 y2 (Text s) color2 2, trace_bar2]"
    and l2: "yaxis2 layout2 = Some (Axis s ''y1'' ''right'')"
    unfolding second_axis_Some_Returns_iff by auto
  from cd2 obtain y_bar2 where
    tb2: "trace_bar2 = Bar x_bar y_bar2 color2 (3 / 10) (Text (''Dist. '' @ s))"
    and xb: "x_bar2 = x_bar"
    unfolding create_dist_Some_Inr_iff by auto
  from categorical_Returns_cases [OF ca] obtain cats where
    "data3 = data2 @ cats" "categorical_var = None \<longrightarrow> cats = []"
    "\<forall>cv. categorical_var = Some cv \<longrightarrow>
       (\<exists>color_used' pos'. create_cat_plots entropy pos2 (h' r) cv x_var y_var x_bar2 color_used2
                               = Returns (cats, color_used', pos'))"
    by blast
  with cd cc av av2 cd2 l2 show ?thesis
    unfolding pl d2 xb color tb2 create_scatter_axis by (simp del: One_nat_def) blast
qed

section \<open>The secondary axis\<close>

lemma categorical_Returns_append:
  assumes "categorical entropy df categorical_var x_var y_var x_bar data color_used pos = Returns data3"
  shows "\<exists>cats. data3 = data @ cats"
  using categorical_Returns_cases [OF assms] by (elim exE conjE) (rule exI)

lemma create_figure_same_base:
  assumes one: "create_figure entropy pos h r x_var y_var x_title y_title title None categorical_var
             stack_bar = Returns (plot1, h1)"
    and two: "create_figure entropy pos h r x_var y_var x_title y_title title (Some s)
             categorical_var stack_bar = Returns (plot2, h2)"
  shows "h2 = h1" and "take 2 (plot_data plot2) = take 2 (plot_data plot1)"
proof -
  let ?layout = "\<lparr>layout_title = title, xaxis = (x_title, True), yaxis = y_title,
            barmode = (if stack_bar then Some ''stack'' else None), yaxis2 = None\<rparr>"
  from create_figure_ReturnsD [OF one] obtain color color_used pos1 trace_bar x_bar x y
      data2 layout2 color_used2 pos2 x_bar2 data3 where
    a: "find_color entropy pos [] = Returns (color, color_used, pos1)"
       "create_dist (h r) x_var color None (1 / 10) = Inr (trace_bar, x_bar)"
       "cat_clients h r x_var x_bar = Inr (r, h1)"
       "avg_cats (h1 r) x_var y_var = Inr (x, y)"
       "second_axis entropy (h1 r) x_var None x_bar
          [trace_bar, create_scatter x y (Text x_var) color 1] ?layout
          color_used pos1 = Returns (data2, layout2, color_used2, pos2, x_bar2)"
       "categorical entropy (h1 r) categorical_var x_var y_var x_bar2 data2 color_used2 pos2
          = Returns data3"
       "plot1 = \<lparr>plot_data = data3, plot_layout = layout2, filename = output_file title\<rparr>"
    by blast
  from create_figure_ReturnsD [OF two] obtain color' color_used' pos1' trace_bar' x_bar' x' y'
      data2' layout2' color_used2' pos2' x_bar2' data3' where
    b: "find_color entropy pos [] = Returns (color', color_used', pos1')"
       "create_dist (h r) x_var color' None (1 / 10) = Inr (trace_bar', x_bar')"
       "cat_clients h r x_var x_bar' = Inr (r, h2)"
       "avg_cats (h2 r) x_var y_var = Inr (x', y')"
       "second_axis entropy (h2 r) x_var (Some s) x_bar'
          [trace_bar', create_scatter x' y' (Text x_var) color' 1] ?layout
          color_used' pos1' = Returns (data2', layout2', color_used2', pos2', x_bar2')"
       "categorical entropy (h2 r) categorical_var x_var y_var x_bar2' data2' color_used2' pos2'
          = Returns data3'"
       "plot2 = \<lparr>plot_data = data3', plot_layout = layout2', filename = output_file title\<rparr>"
    by blast
  from a(1) [symmetric] b(1)
  have "Returns (color, color_used, pos1) = Returns (color', color_used', pos1')" by (rule trans)
  then have c: "color' = color" by (simp only: outcome.inject prod.inject)
  from a(2) [symmetric] b(2) [unfolded c]
  have "Inr (trace_bar, x_bar) = (Inr (trace_bar', x_bar') :: error + _)" by (rule trans)
  then have same: "trace_bar' = trace_bar" "x_bar' = x_bar"
    by (simp_all only: sum.inject prod.inject)
  from a(3) [symmetric] b(3) [unfolded same]
  have "Inr (r, h1) = (Inr (r, h2) :: error + _)" by (rule trans)
  then show h: "h2 = h1" by (simp only: sum.inject prod.inject)
  from a(4) [symmetric] b(4) [unfolded h]
  have "Inr (x, y) = (Inr (x', y') :: error + _)" by (rule trans)
  then have xy: "x' = x" "y' = y" by (simp_all only: sum.inject prod.inject)
  from a(5) have d2: "data2 = [trace_bar, create_scatter x y (Text x_var) color 1]"
    by (simp add: second_axis_None del: One_nat_def)
  from b(5) obtain extra where
    d2': "data2' = [trace_bar', create_scatter x' y' (Text x_var) color' 1] @ extra"
    unfolding second_axis_Some_Returns_iff by auto
  from categorical_Returns_append [OF a(6)] obtain cats where d3: "data3 = data2 @ cats" ..
  from categorical_Returns_append [OF b(6)] obtain cats' where d3': "data3' = data2' @ cats'" ..
  show "take 2 (plot_data plot2) = take 2 (plot_data plot1)"
    unfolding a(7) b(7) d3 d3' d2 d2' same xy c by simp
qed

text \<open>
  C7. \<^verbatim>\<open>create_dist\<close> called with edges returns those edges unchanged. A run of
  \<^verbatim>\<open>create_figure\<close> without \<^verbatim>\<open>second_y_var\<close> has no \<open>yaxis2\<close> in its layout and, as data,
  the base bar and the base scatter followed by the categorical traces (none without a
  categorical variable). A run with \<^verbatim>\<open>second_y_var\<close> has the \<open>yaxis2\<close> entry and exactly two
  more traces after the base ones, a scatter on axis \<open>y2\<close> and a bar over the same edges.
  The two runs leave the same frame behind and have the same base traces, and the
  categorical traces are built over the same edges in both.
\<close>

theorem create_figure_second_axis_optional:
  "(create_dist df var color (Some x_bar) interval_perc = Inr (trace, x_bar') \<longrightarrow>
      x_bar' = x_bar \<and> bar_x trace = x_bar)
   \<and> (create_figure entropy pos h r x_var y_var x_title y_title title None categorical_var
        stack_bar = Returns (plot_none, h_none) \<longrightarrow>
        yaxis2 (plot_layout plot_none) = None
      \<and> (\<exists>trace_bar x_bar x y cats.
           create_dist (h r) x_var (AXA_colors ! randint entropy pos 0 8) None (1 / 10)
             = Inr (trace_bar, x_bar)
         \<and> cat_clients h r x_var x_bar = Inr (r, h_none)
         \<and> avg_cats (h_none r) x_var y_var = Inr (x, y)
         \<and> plot_data plot_none = [trace_bar, Scatter x y ''lines+markers''
                                           (AXA_colors ! randint entropy pos 0 8) (Text x_var) ''y1'']
                               @ cats
         \<and> (categorical_var = None \<longrightarrow> cats = [])
         \<and> (\<forall>cv. categorical_var = Some cv \<longrightarrow>
               (\<exists>color_used pos1 color_used' pos'.
                  create_cat_plots entropy pos1 (h_none r) cv x_var y_var x_bar color_used
                    = Returns (cats, color_used', pos')))))
   \<and> (create_figure entropy pos h r x_var y_var x_title y_title title (Some s) categorical_var
        stack_bar = Returns (plot_some, h_some) \<longrightarrow>
        yaxis2 (plot_layout plot_some) = Some (Axis s ''y1'' ''right'')
      \<and> (\<exists>trace_bar x_bar x y x2 y2 color2 y_bar2 cats.
           create_dist (h r) x_var (AXA_colors ! randint entropy pos 0 8) None (1 / 10)
             = Inr (trace_bar, x_bar)
         \<and> cat_clients h r x_var x_bar = Inr (r, h_some)
         \<and> avg_cats (h_some r) x_var y_var = Inr (x, y)
         \<and> avg_cats (h_some r) x_var s = Inr (x2, y2)
         \<and> create_dist (h_some r) s color2 (Some x_bar) (1 / 10)
             = Inr (Bar x_bar y_bar2 color2 (3 / 10) (Text (''Dist. '' @ s)), x_bar)
         \<and> plot_data plot_some = [trace_bar,
                               Scatter x y ''lines+markers''
                                 (AXA_colors ! randint entropy pos 0 8) (Text x_var) ''y1'',
                               Scatter x2 y2 ''lines+markers'' color2 (Text s) ''y2'',
                               Bar x_bar y_bar2 color2 (3 / 10) (Text (''Dist. '' @ s))]
                               @ cats
         \<and> (categorical_var = None \<longrightarrow> cats = [])
         \<and> (\<forall>cv. categorical_var = Some cv \<longrightarrow>
               (\<exists>color_used pos1 color_used' pos'.
                  create_cat_plots entropy pos1 (h_some r) cv x_var y_var x_bar color_used
                    = Returns (cats, color_used', pos')))))
   \<and> (create_figure entropy pos h r x_var y_var x_title y_title title None categorical_var
        stack_bar = Returns (plot_none, h_none) \<longrightarrow>
      create_figure entropy pos h r x_var y_var x_title y_title title (Some s) categorical_var
        stack_bar = Returns (plot_some, h_some) \<longrightarrow>
        h_some = h_none \<and> take 2 (plot_data plot_some) = take 2 (plot_data plot_none))"
proof -
  have a: "x_bar' = x_bar \<and> bar_x trace = x_bar"
    if "create_dist df var color (Some x_bar) interval_perc = Inr (trace, x_bar')"
    using that unfolding create_dist_Some_Inr_iff by auto
  have d: "h_some = h_none \<and> take 2 (plot_data plot_some) = take 2 (plot_data plot_none)"
    if "create_figure entropy pos h r x_var y_var x_title y_title title None categorical_var
          stack_bar = Returns (plot_none, h_none)"
      and "create_figure entropy pos h r x_var y_var x_title y_title title (Some s) categorical_var
          stack_bar = Returns (plot_some, h_some)"
    using create_figure_same_base [OF that] by (rule conjI)
  show ?thesis
    apply (rule conjI)
     apply (rule impI)
     apply (erule a)
    apply (rule conjI)
     apply (rule impI)
     apply (erule create_figure_without_second)
    apply (rule conjI)
     apply (rule impI)
     apply (erule create_figure_with_second)
    apply (rule impI)
    apply (rule impI)
    apply (erule (1) d)
    done
qed



text \<open>Two runs on one frame, without and with the secondary variable \<open>z\<close>.\<close>

theorem create_figure_second_axis_optional_witness:
  "\<exists>plot1 h1 plot2 h2 trace.
     create_figure (\<lambda>i. i) 0
       (\<lambda>_. \<lparr>nrows = 3, columns = [(''x'', [10, 30, 50]), (''y'', [2, 4, 6]), (''z'', [1, 1, 2]),
                                  (''pr_total'', [9, 8, 7])]\<rparr>) 0
       ''x'' ''y'' ''X'' ''Y'' ''demo'' None None False = Returns (plot1, h1)
   \<and> create_figure (\<lambda>i. i) 0
       (\<lambda>_. \<lparr>nrows = 3, columns = [(''x'', [10, 30, 50]), (''y'', [2, 4, 6]), (''z'', [1, 1, 2]),
                                  (''pr_total'', [9, 8, 7])]\<rparr>) 0
       ''x'' ''y'' ''X'' ''Y'' ''demo'' (Some ''z'') None False = Returns (plot2, h2)
   \<and> create_dist \<lparr>nrows = 3, columns = [(''z'', [1, 1, 2])]\<rparr> ''z'' (Rgba 0 0 143 (8 / 10))
         (Some [0, 2, 4]) (1 / 10) = Inr (trace, [0, 2, 4])
   \<and> bar_x trace = [0, 2, 4]
   \<and> yaxis2 (plot_layout plot1) = None \<and> length (plot_data plot1) = 2
   \<and> yaxis2 (plot_layout plot2) = Some (Axis ''z'' ''y1'' ''right'') \<and> length (plot_data plot2) = 4
   \<and> h2 = h1 \<and> take 2 (plot_data plot2) = take 2 (plot_data plot1)"
proof -
  let ?h = "\<lambda>_::nat. \<lparr>nrows = 3, columns = [(''x'', [10, 30, 50]), (''y'', [2, 4, 6]),
                                  (''z'', [1, 1, 2]), (''pr_total'', [9, 8, 7 :: rat])]\<rparr>"
  let ?dz = "\<lparr>nrows = 3, columns = [(''z'', [1, 1, 2 :: rat])]\<rparr>"
  have col: "getcol (?h 0) ''x'' = Inr [10, 30, 50]" by (simp add: getcol_def)
  have has: "has_column (?h 0) ''y''" "has_column (?h 0) ''pr_total''" "has_column (?h 0) ''z''"
    by (simp_all add: has_column_def)
  have pos: "[10, 30, 50 :: rat] \<noteq> []" "0 < Max (set [10, 30, 50 :: rat])" by simp_all
  have draw: "\<exists>k. randint (\<lambda>i. i) (Suc 0 + k) 0 8 \<noteq> randint (\<lambda>i. i) 0 0 8"
    by (rule exI [of _ 0]) (simp add: randint_def)
  from create_figure_returns [where h = ?h and df = 0 and second_y_var = None
      and entropy = "\<lambda>i. i" and pos = 0 and x_title = "''X''" and y_title = "''Y''"
      and title = "''demo''" and stack_bar = False, OF col pos has(1,2)]
  obtain plot1 h1 where
    one: "create_figure (\<lambda>i. i) 0 ?h 0 ''x'' ''y'' ''X'' ''Y'' ''demo'' None None False
            = Returns (plot1, h1)"
    by auto
  from create_figure_returns [where h = ?h and df = 0 and second_y_var = "Some ''z''"
      and entropy = "\<lambda>i. i" and pos = 0 and x_title = "''X''" and y_title = "''Y''"
      and title = "''demo''" and stack_bar = False, OF col pos has(1,2)] has(3) draw
  obtain plot2 h2 where
    two: "create_figure (\<lambda>i. i) 0 ?h 0 ''x'' ''y'' ''X'' ''Y'' ''demo'' (Some ''z'') None False
            = Returns (plot2, h2)"
    by auto
  have "increasing [0, 2, 4]" by (simp add: increasing_def)
  then obtain trace where
    cd: "create_dist ?dz ''z'' (Rgba 0 0 143 (8 / 10)) (Some [0, 2, 4]) (1 / 10) = Inr (trace, [0, 2, 4])"
    by (simp add: create_dist_Some_Inr_iff getcol_def)
  note t = create_figure_second_axis_optional [where entropy = "\<lambda>i. i" and pos = 0 and h = ?h
      and r = 0 and x_var = "''x''" and y_var = "''y''" and x_title = "''X''" and y_title = "''Y''"
      and title = "''demo''" and categorical_var = None and stack_bar = False and s = "''z''"
      and plot_none = plot1 and h_none = h1 and plot_some = plot2 and h_some = h2
      and df = ?dz and var = "''z''" and color = "Rgba 0 0 143 (8 / 10)" and x_bar = "[0, 2, 4]"
      and interval_perc = "1 / 10" and trace = trace and x_bar' = "[0, 2, 4]"]
  from t [THEN conjunct1, THEN mp, OF cd] have bx: "bar_x trace = [0, 2, 4]" by (rule conjunct2)
  note t2 = t [THEN conjunct2, THEN conjunct1, THEN mp, OF one]
  note t3 = t [THEN conjunct2, THEN conjunct2, THEN conjunct1, THEN mp, OF two]
  note t4 = t [THEN conjunct2, THEN conjunct2, THEN conjunct2, THEN mp, THEN mp, OF one two]
  from t2 have n1: "yaxis2 (plot_layout plot1) = None" by (rule conjunct1)
  from t2 [THEN conjunct2] have l1: "length (plot_data plot1) = 2"
    by (elim exE conjE) simp
  from t3 have n2: "yaxis2 (plot_layout plot2) = Some (Axis ''z'' ''y1'' ''right'')"
    by (rule conjunct1)
  from t3 [THEN conjunct2] have l2: "length (plot_data plot2) = 4"
    by (elim exE conjE) simp
  from t4 have same: "h2 = h1" "take 2 (plot_data plot2) = take 2 (plot_data plot1)"
    by (rule conjunct1, rule conjunct2)
  from one two cd bx n1 l1 n2 l2 same show ?thesis by blast
qed

section \<open>The categorical overlay: \<^verbatim>\<open>create_cat_plots\<close>\<close>

lemma find_color_first_draw:
  assumes "randint entropy pos 0 8 \<notin> set color_used"
  shows "find_color entropy pos color_used =
           Returns (AXA_colors ! randint entropy pos 0 8, color_used @ [randint entropy pos 0 8],
                    Suc pos)"
proof -
  from assms have "retry entropy color_used pos = Some (randint entropy pos 0 8, Suc pos)"
    by (subst retry.simps) simp
  then show ?thesis by (simp add: find_color_def)
qed

lemma find_color_Returns_shape:
  assumes "find_color entropy pos color_used = Returns (color, color_used', pos')"
  shows "\<exists>temp. temp < 8 \<and> temp \<notin> set color_used \<and> color = AXA_colors ! temp
               \<and> color_used' = color_used @ [temp]"
proof (cases "retry entropy color_used pos")
  case None
  with assms show ?thesis by (simp add: find_color_def)
next
  case (Some r)
  from retry_Some_unused [OF Some] assms Some show ?thesis
    by (cases r) (auto simp: find_color_def)
qed

lemma cat_loop_step:
  assumes cs: "getcol df cv = Inr cs" and xs: "getcol df x_var = Inr xs"
    and run: "cat_loop entropy df cv x_var x_bar tx ty (v # rest) acc pos used
              = Returns (traces, used', pos')"
  shows "\<exists>temp_x temp_y color used1 pos1.
           find_color entropy pos used = Returns (color, used1, pos1)
         \<and> cat_loop entropy df cv x_var x_bar tx ty rest
              (acc @ [create_scatter temp_x temp_y (Str_of v) color 1,
                      Bar x_bar (bar_heights (map (\<lambda>i. length (filter (in_bin x_bar i) (cat_rows cs xs v)))
                                                  [0..<length x_bar - 1]) (nrows df))
                          color (3 / 10) (Str_of v)])
              pos1 used1 = Returns (traces, used', pos')"
  using run
  apply (simp only: cat_loop.simps and_then_Returns_iff lift_Returns_iff cs xs try_then_Inr Let_def)
  apply (elim exE conjE)
  apply (simp only: split_paired_all prod.case np_histogram_def split: if_splits)
   apply simp
  apply (simp only: sum.inject)
  apply blast
  done


lemma cat_loop_Returns:
  assumes cs: "getcol df cv = Inr cs" and xs: "getcol df x_var = Inr xs"
  shows "cat_loop entropy df cv x_var x_bar tx ty vs acc pos used = Returns (traces, used', pos') \<Longrightarrow>
     length traces = length acc + 2 * length vs
   \<and> (\<forall>i<length acc. traces ! i = acc ! i)
   \<and> (\<forall>k<length vs. \<exists>temp_x temp_y color.
         traces ! (length acc + 2 * k) = create_scatter temp_x temp_y (Str_of (vs ! k)) color 1
       \<and> traces ! (length acc + 2 * k + 1)
           = Bar x_bar (bar_heights (map (\<lambda>i. length (filter (in_bin x_bar i) (cat_rows cs xs (vs ! k))))
                                        [0..<length x_bar - 1]) (nrows df))
                 color (3 / 10) (Str_of (vs ! k)))"
proof (induction vs arbitrary: acc pos used)
  case Nil
  then show ?case by simp
next
  case (Cons v rest)
  from cat_loop_step [OF cs xs Cons.prems] obtain temp_x temp_y color used1 pos1 where
    rec: "cat_loop entropy df cv x_var x_bar tx ty rest
              (acc @ [create_scatter temp_x temp_y (Str_of v) color 1,
                      Bar x_bar (bar_heights (map (\<lambda>i. length (filter (in_bin x_bar i) (cat_rows cs xs v)))
                                                  [0..<length x_bar - 1]) (nrows df))
                          color (3 / 10) (Str_of v)])
              pos1 used1 = Returns (traces, used', pos')"
    by blast
  let ?s = "create_scatter temp_x temp_y (Str_of v) color 1"
  let ?b = "Bar x_bar (bar_heights (map (\<lambda>i. length (filter (in_bin x_bar i) (cat_rows cs xs v)))
                                                  [0..<length x_bar - 1]) (nrows df))
                          color (3 / 10) (Str_of v)"
  note ih = Cons.IH [OF rec]
  from ih have len: "length traces = length acc + 2 * length (v # rest)" by simp
  from ih have pre: "\<forall>i<length acc + 2. traces ! i = (acc @ [?s, ?b]) ! i" by simp
  have old: "\<forall>i<length acc. traces ! i = acc ! i"
    using pre by (simp add: nth_append)
  have first: "traces ! (length acc) = ?s" "traces ! (length acc + 1) = ?b"
    using pre by (simp_all add: nth_append)
  have later: "\<forall>k<length rest. \<exists>temp_x temp_y color.
         traces ! (length acc + 2 * Suc k) = create_scatter temp_x temp_y (Str_of (rest ! k)) color 1
       \<and> traces ! (length acc + 2 * Suc k + 1)
           = Bar x_bar (bar_heights (map (\<lambda>i. length (filter (in_bin x_bar i) (cat_rows cs xs (rest ! k))))
                                        [0..<length x_bar - 1]) (nrows df))
                 color (3 / 10) (Str_of (rest ! k))"
    using ih by (simp add: add.assoc)
  have all: "\<exists>temp_x temp_y color.
         traces ! (length acc + 2 * k) = create_scatter temp_x temp_y (Str_of ((v # rest) ! k)) color 1
       \<and> traces ! (length acc + 2 * k + 1)
           = Bar x_bar (bar_heights (map (\<lambda>i. length (filter (in_bin x_bar i) (cat_rows cs xs ((v # rest) ! k))))
                                        [0..<length x_bar - 1]) (nrows df))
                 color (3 / 10) (Str_of ((v # rest) ! k))"
    if "k < length (v # rest)" for k
  proof (cases k)
    case 0
    with first show ?thesis by auto
  next
    case (Suc k')
    with that have "k' < length rest" by simp
    with later Suc show ?thesis by simp
  qed
  from len old all show ?case by blast
qed

lemma length_unique: "length (unique s) = card (set s)"
  by (simp add: unique_def length_remdups_card_conv)

lemma set_unique: "set (unique s) = set s" and distinct_unique: "distinct (unique s)"
  by (simp_all add: unique_def)

lemma create_cat_plots_Returns:
  assumes "create_cat_plots entropy pos df cv x_var y_var x_bar color_used = Returns (traces, used', pos')"
  shows "\<exists>cs xs. getcol df cv = Inr cs \<and> getcol df x_var = Inr xs
     \<and> length traces = 2 * card (set cs)
     \<and> (\<forall>k<card (set cs). \<exists>temp_x temp_y color.
           traces ! (2 * k) = create_scatter temp_x temp_y (Str_of (unique cs ! k)) color 1
         \<and> traces ! (2 * k + 1)
             = Bar x_bar (bar_heights (map (\<lambda>i. length (filter (in_bin x_bar i)
                                                              (cat_rows cs xs (unique cs ! k))))
                                          [0..<length x_bar - 1]) (nrows df))
                   color (3 / 10) (Str_of (unique cs ! k)))"
proof -
  from assms obtain tx ty cs where
    g: "groupby2_mean df cv ''cat'' x_var = Inr tx" and cs: "getcol df cv = Inr cs"
    and loop: "cat_loop entropy df cv x_var x_bar tx ty (unique cs) [] pos color_used
                 = Returns (traces, used', pos')"
    unfolding create_cat_plots_def and_then_Returns_iff lift_Returns_iff by blast
  from g obtain xs where xs: "getcol df x_var = Inr xs"
    unfolding groupby2_mean_def try_then_Inr_iff by blast
  from cat_loop_Returns [OF cs xs loop] cs xs show ?thesis
    by (simp add: length_unique)
qed




lemma cat_plots_example:
  "create_cat_plots (\<lambda>i. i) 0
     \<lparr>nrows = 3, columns = [(''g'', [1, 2, 1]), (''x'', [1, 3, 1]), (''y'', [2, 4, 6]),
                            (''cat'', [0, 1, 0])]\<rparr>
     ''g'' ''x'' ''y'' [0, 2, 4] []
   = Returns ([Scatter [(0, 1)] [(0, 4)] ''lines+markers'' (Rgba 0 0 143 (8 / 10)) (Str_of 1) ''y1'',
               Bar [0, 2, 4] [Some (2 / 3), Some 0] (Rgba 0 0 143 (8 / 10)) (3 / 10) (Str_of 1),
               Scatter [(1, 3)] [(1, 4)] ''lines+markers'' (Rgba 252 211 133 (8 / 10)) (Str_of 2) ''y1'',
               Bar [0, 2, 4] [Some 0, Some (1 / 3)] (Rgba 252 211 133 (8 / 10)) (3 / 10) (Str_of 2)],
              [0, 1], 2)"
proof -
  let ?df = "\<lparr>nrows = 3, columns = [(''g'', [1, 2, 1]), (''x'', [1, 3, 1]), (''y'', [2, 4, 6]),
                            (''cat'', [0, 1, 0 :: rat])]\<rparr>"
  have cols: "getcol ?df ''g'' = Inr [1, 2, 1]" "getcol ?df ''x'' = Inr [1, 3, 1]"
    "getcol ?df ''y'' = Inr [2, 4, 6]" "getcol ?df ''cat'' = Inr [0, 1, 0]"
    by (simp_all add: getcol_def)
  have gx: "groupby2_mean ?df ''g'' ''cat'' ''x'' = Inr [((1, 0), 1), ((2, 1), 3)]"
    by (simp add: groupby2_mean_def cols group_means_def mean_def)
  have gy: "groupby2_mean ?df ''g'' ''cat'' ''y'' = Inr [((1, 0), 4), ((2, 1), 4)]"
    by (simp add: groupby2_mean_def cols group_means_def mean_def)
  have u: "unique [1, 2, 1 :: rat] = [1, 2]" by (simp add: unique_def)
  have lv: "level [((1, 0), 1), ((2, 1), 3)] 1 = Inr [(0, 1)]"
    "level [((1, 0), 1), ((2, 1), 3)] 2 = Inr [(1, 3)]"
    "level [((1, 0), 4), ((2, 1), 4)] 1 = Inr [(0, 4)]"
    "level [((1, 0), 4), ((2, 1), 4)] 2 = Inr [(1, 4)]"
    by (simp_all add: level_def)
  have hist: "np_histogram (cat_rows [1, 2, 1] [1, 3, 1] 1) [0, 2, 4] = Inr [2, 0]"
    "np_histogram (cat_rows [1, 2, 1] [1, 3, 1] 2) [0, 2, 4] = Inr [0, 1]"
    by (simp_all add: np_histogram_def cat_rows_def increasing_def in_bin_def upt_conv_Cons)
  have bh: "bar_heights [2, 0] 3 = [Some (2 / 3), Some 0]" "bar_heights [0, 1] 3 = [Some 0, Some (1 / 3)]"
    by (simp_all add: bar_heights_def true_divide_def)
  have fc: "find_color (\<lambda>i. i) 0 [] = Returns (Rgba 0 0 143 (8 / 10), [0], 1)"
    "find_color (\<lambda>i. i) 1 [0] = Returns (Rgba 252 211 133 (8 / 10), [0, 1], 2)"
    by (simp_all add: find_color_first_draw randint_def AXA_colors_def)
  show ?thesis
    by (simp add: create_cat_plots_def gx gy cols u lv hist bh fc and_then_def lift_def
        create_scatter_axis del: One_nat_def)
qed



text \<open>
  C5 (amended). The list returned by \<^verbatim>\<open>create_cat_plots\<close> holds exactly two traces for each
  distinct value of the categorical column, in the order in which the values first appear:
  a scatter and, right after it, a bar over the edges \<open>x_bar\<close>, both named after the value
  and of one colour.
\<close>

theorem create_cat_plots_two_traces_per_value:
  assumes "create_cat_plots entropy pos df categorical_var x_var y_var x_bar color_used
             = Returns (trace_cats, color_used', pos')"
  shows "\<exists>cs. getcol df categorical_var = Inr cs
      \<and> length trace_cats = 2 * card (set cs)
      \<and> distinct (unique cs) \<and> set (unique cs) = set cs
      \<and> (\<forall>k<card (set cs). \<exists>x y y_bar color.
            trace_cats ! (2 * k)
              = Scatter x y ''lines+markers'' color (Str_of (unique cs ! k)) ''y1''
          \<and> trace_cats ! (2 * k + 1)
              = Bar x_bar y_bar color (3 / 10) (Str_of (unique cs ! k)))"
proof -
  from create_cat_plots_Returns [OF assms] obtain cs xs where
    cs: "getcol df categorical_var = Inr cs"
    and len: "length trace_cats = 2 * card (set cs)"
    and each: "\<forall>k<card (set cs). \<exists>temp_x temp_y color.
           trace_cats ! (2 * k) = create_scatter temp_x temp_y (Str_of (unique cs ! k)) color 1
         \<and> trace_cats ! (2 * k + 1)
             = Bar x_bar (bar_heights (map (\<lambda>i. length (filter (in_bin x_bar i)
                                                              (cat_rows cs xs (unique cs ! k))))
                                          [0..<length x_bar - 1]) (nrows df))
                   color (3 / 10) (Str_of (unique cs ! k))"
    by blast
  have "\<exists>x y y_bar color.
            trace_cats ! (2 * k)
              = Scatter x y ''lines+markers'' color (Str_of (unique cs ! k)) ''y1''
          \<and> trace_cats ! (2 * k + 1)
              = Bar x_bar y_bar color (3 / 10) (Str_of (unique cs ! k))"
    if "k < card (set cs)" for k
    using each [rule_format, OF that] unfolding create_scatter_axis by blast
  with cs len distinct_unique [of cs] set_unique [of cs] show ?thesis by blast
qed

text \<open>A frame of three rows whose categorical column \<open>g\<close> holds the two values 1 and 2.\<close>

theorem create_cat_plots_two_traces_per_value_witness:
  "create_cat_plots (\<lambda>i. i) 0
     \<lparr>nrows = 3, columns = [(''g'', [1, 2, 1]), (''x'', [1, 3, 1]), (''y'', [2, 4, 6]),
                            (''cat'', [0, 1, 0])]\<rparr>
     ''g'' ''x'' ''y'' [0, 2, 4] []
   = Returns ([Scatter [(0, 1)] [(0, 4)] ''lines+markers'' (Rgba 0 0 143 (8 / 10)) (Str_of 1) ''y1'',
               Bar [0, 2, 4] [Some (2 / 3), Some 0] (Rgba 0 0 143 (8 / 10)) (3 / 10) (Str_of 1),
               Scatter [(1, 3)] [(1, 4)] ''lines+markers'' (Rgba 252 211 133 (8 / 10)) (Str_of 2) ''y1'',
               Bar [0, 2, 4] [Some 0, Some (1 / 3)] (Rgba 252 211 133 (8 / 10)) (3 / 10) (Str_of 2)],
              [0, 1], 2)
   \<and> (\<exists>cs. getcol \<lparr>nrows = 3, columns = [(''g'', [1, 2, 1]), (''x'', [1, 3, 1]), (''y'', [2, 4, 6]),
                            (''cat'', [0, 1, 0])]\<rparr> ''g'' = Inr cs
         \<and> 4 = 2 * card (set cs))"
proof -
  note run = cat_plots_example
  from create_cat_plots_two_traces_per_value [OF run] obtain cs where
    "getcol \<lparr>nrows = 3, columns = [(''g'', [1, 2, 1]), (''x'', [1, 3, 1]), (''y'', [2, 4, 6]),
                            (''cat'', [0, 1, 0])]\<rparr> ''g'' = Inr cs"
    and "length [Scatter [(0, 1)] [(0, 4)] ''lines+markers'' (Rgba 0 0 143 (8 / 10)) (Str_of 1) ''y1'',
               Bar [0, 2, 4] [Some (2 / 3), Some 0] (Rgba 0 0 143 (8 / 10)) (3 / 10) (Str_of 1),
               Scatter [(1, 3)] [(1, 4)] ''lines+markers'' (Rgba 252 211 133 (8 / 10)) (Str_of 2) ''y1'',
               Bar [0, 2, 4] [Some 0, Some (1 / 3)] (Rgba 252 211 133 (8 / 10)) (3 / 10) (Str_of 2)]
         = 2 * card (set cs)"
    by (elim exE conjE)
  then have "\<exists>cs. getcol \<lparr>nrows = 3, columns = [(''g'', [1, 2, 1]), (''x'', [1, 3, 1]), (''y'', [2, 4, 6]),
                            (''cat'', [0, 1, 0])]\<rparr> ''g'' = Inr cs
         \<and> 4 = 2 * card (set cs)"
    by (intro exI [of _ cs]) simp
  with run show ?thesis by (rule conjI)
qed

text \<open>
  On that frame the column has two distinct values and the list returned has four traces,
  not one per value.
\<close>

theorem create_cat_plots_four_traces_for_two_values:
  "getcol \<lparr>nrows = 3, columns = [(''g'', [1, 2, 1]), (''x'', [1, 3, 1]), (''y'', [2, 4, 6]),
                                (''cat'', [0, 1, 0])]\<rparr> ''g'' = Inr [1, 2, 1]
   \<and> card (set [1, 2, 1 :: rat]) = 2
   \<and> create_cat_plots (\<lambda>i. i) 0
     \<lparr>nrows = 3, columns = [(''g'', [1, 2, 1]), (''x'', [1, 3, 1]), (''y'', [2, 4, 6]),
                            (''cat'', [0, 1, 0])]\<rparr>
     ''g'' ''x'' ''y'' [0, 2, 4] []
   = Returns ([Scatter [(0, 1)] [(0, 4)] ''lines+markers'' (Rgba 0 0 143 (8 / 10)) (Str_of 1) ''y1'',
               Bar [0, 2, 4] [Some (2 / 3), Some 0] (Rgba 0 0 143 (8 / 10)) (3 / 10) (Str_of 1),
               Scatter [(1, 3)] [(1, 4)] ''lines+markers'' (Rgba 252 211 133 (8 / 10)) (Str_of 2) ''y1'',
               Bar [0, 2, 4] [Some 0, Some (1 / 3)] (Rgba 252 211 133 (8 / 10)) (3 / 10) (Str_of 2)],
              [0, 1], 2)"
proof -
  have "getcol \<lparr>nrows = 3, columns = [(''g'', [1, 2, 1]), (''x'', [1, 3, 1]), (''y'', [2, 4, 6]),
                                (''cat'', [0, 1, 0])]\<rparr> ''g'' = Inr [1, 2, 1]"
    by (simp add: getcol_def)
  moreover have "set [1, 2, 1 :: rat] = {1, 2}" by auto
  then have "card (set [1, 2, 1 :: rat]) = 2" by simp
  moreover note cat_plots_example
  ultimately show ?thesis by (intro conjI)
qed


section \<open>Bar heights\<close>






section \<open>Running out of colours\<close>

lemma unused_index:
  fixes color_used :: "nat list"
  assumes "card (set color_used \<inter> {0..<8}) < 8"
  shows "\<exists>c<8. c \<notin> set color_used"
proof -
  have "\<not> {0..<8} \<subseteq> set color_used"
  proof
    assume "{0..<8} \<subseteq> set color_used"
    then have "set color_used \<inter> {0..<8} = {0..<8}" by auto
    with assms show False by simp
  qed
  then obtain c where "c \<in> {0..<8}" and "c \<notin> set color_used" by blast
  then show ?thesis by auto
qed

lemma find_color_returns_fair:
  assumes few: "card (set color_used \<inter> {0..<8}) < 8"
    and fair: "\<forall>c<8. \<exists>k. randint entropy (pos + k) 0 8 = c"
  shows "\<exists>temp pos'. find_color entropy pos color_used
                        = Returns (AXA_colors ! temp, color_used @ [temp], pos')
                     \<and> temp < 8 \<and> temp \<notin> set color_used"
proof -
  from unused_index [OF few] obtain c where "c < 8" "c \<notin> set color_used" by blast
  with fair obtain k where "randint entropy (pos + k) 0 8 \<notin> set color_used" by metis
  then show ?thesis by (rule find_color_returns)
qed

lemma card_used_snoc:
  fixes color_used :: "nat list"
  assumes "temp < 8" and "temp \<notin> set color_used"
  shows "card (set (color_used @ [temp]) \<inter> {0..<8}) = Suc (card (set color_used \<inter> {0..<8}))"
proof -
  have "set (color_used @ [temp]) \<inter> {0..<8} = insert temp (set color_used \<inter> {0..<8})"
    using assms(1) by auto
  moreover have "temp \<notin> set color_used \<inter> {0..<8}" using assms(2) by simp
  ultimately show ?thesis by simp
qed

lemma card_used_le: "card (set color_used \<inter> {0..<8::nat}) \<le> 8"
proof -
  have "card (set color_used \<inter> {0..<8}) \<le> card {0..<8::nat}"
    by (rule card_mono) auto
  then show ?thesis by simp
qed

lemma cat_loop_colour_budget:
  assumes cs: "getcol df cv = Inr cs" and xs: "getcol df x_var = Inr xs"
  shows "cat_loop entropy df cv x_var x_bar tx ty vs acc pos used = Returns (traces, used', pos') \<Longrightarrow>
         card (set used \<inter> {0..<8}) + length vs \<le> 8"
proof (induction vs arbitrary: acc pos used)
  case Nil
  then show ?case using card_used_le [of used] by simp
next
  case (Cons v rest)
  from cat_loop_step [OF cs xs Cons.prems] obtain temp_x temp_y color used1 pos1 where
    fc: "find_color entropy pos used = Returns (color, used1, pos1)"
    and rec: "cat_loop entropy df cv x_var x_bar tx ty rest
              (acc @ [create_scatter temp_x temp_y (Str_of v) color 1,
                      Bar x_bar (bar_heights (map (\<lambda>i. length (filter (in_bin x_bar i) (cat_rows cs xs v)))
                                                  [0..<length x_bar - 1]) (nrows df))
                          color (3 / 10) (Str_of v)])
              pos1 used1 = Returns (traces, used', pos')"
    by blast
  from find_color_Returns_shape [OF fc] obtain temp where
    "temp < 8" "temp \<notin> set used" "used1 = used @ [temp]" by blast
  then have "card (set used1 \<inter> {0..<8}) = Suc (card (set used \<inter> {0..<8}))"
    using card_used_snoc by simp
  with Cons.IH [OF rec] show ?case by simp
qed

lemma create_cat_plots_colour_budget:
  assumes "create_cat_plots entropy pos df cv x_var y_var x_bar color_used = Returns (traces, used', pos')"
  shows "\<exists>cs. getcol df cv = Inr cs \<and> card (set color_used \<inter> {0..<8}) + card (set cs) \<le> 8"
proof -
  from assms obtain tx ty cs where
    g: "groupby2_mean df cv ''cat'' x_var = Inr tx" and cs: "getcol df cv = Inr cs"
    and loop: "cat_loop entropy df cv x_var x_bar tx ty (unique cs) [] pos color_used
                 = Returns (traces, used', pos')"
    unfolding create_cat_plots_def and_then_Returns_iff lift_Returns_iff by blast
  from g obtain xs where xs: "getcol df x_var = Inr xs"
    unfolding groupby2_mean_def try_then_Inr_iff by blast
  from cat_loop_colour_budget [OF cs xs loop] cs show ?thesis
    by (simp add: length_unique)
qed

lemma create_figure_colour_budget:
  assumes "create_figure entropy pos h r x_var y_var x_title y_title title second_y_var (Some cv)
             stack_bar = Returns (plot, h')"
  shows "\<exists>cs. getcol (h' r) cv = Inr cs \<and> card (set cs) \<le> 7"
proof -
  let ?layout = "\<lparr>layout_title = title, xaxis = (x_title, True), yaxis = y_title,
            barmode = (if stack_bar then Some ''stack'' else None), yaxis2 = None\<rparr>"
  from create_figure_ReturnsD [OF assms] obtain color color_used pos1 trace_bar x_bar x y
      data2 layout2 color_used2 pos2 x_bar2 data3 where
    a: "find_color entropy pos [] = Returns (color, color_used, pos1)"
       "create_dist (h r) x_var color None (1 / 10) = Inr (trace_bar, x_bar)"
       "cat_clients h r x_var x_bar = Inr (r, h')"
       "avg_cats (h' r) x_var y_var = Inr (x, y)"
       "second_axis entropy (h' r) x_var second_y_var x_bar
          [trace_bar, create_scatter x y (Text x_var) color 1] ?layout
          color_used pos1 = Returns (data2, layout2, color_used2, pos2, x_bar2)"
       "categorical entropy (h' r) (Some cv) x_var y_var x_bar2 data2 color_used2 pos2
          = Returns data3"
       "plot = \<lparr>plot_data = data3, plot_layout = layout2, filename = output_file title\<rparr>"
    by blast
  from find_color_Returns_shape [OF a(1)] obtain temp where
    t: "temp < 8" "color_used = [] @ [temp]" by blast
  then have one: "card (set color_used \<inter> {0..<8}) = 1"
    using card_used_snoc [of temp "[]"] by simp
  have "1 \<le> card (set color_used2 \<inter> {0..<8})"
  proof (cases second_y_var)
    case None
    with a(5) one show ?thesis by (simp add: second_axis_None)
  next
    case (Some s)
    with a(5) obtain color2 pos' where
      "find_color entropy pos1 color_used = Returns (color2, color_used2, pos')"
      unfolding Some second_axis_Some_Returns_iff by auto
    from find_color_Returns_shape [OF this] obtain temp2 where
      "temp2 < 8" "temp2 \<notin> set color_used" "color_used2 = color_used @ [temp2]" by blast
    then have "card (set color_used2 \<inter> {0..<8}) = Suc (card (set color_used \<inter> {0..<8}))"
      using card_used_snoc by simp
    then show ?thesis by simp
  qed
  moreover from a(6) obtain trace_cats used' pos' where
    "create_cat_plots entropy pos2 (h' r) cv x_var y_var x_bar2 color_used2
       = Returns (trace_cats, used', pos')"
    unfolding categorical_Some_Returns_iff by blast
  from create_cat_plots_colour_budget [OF this] obtain cs where
    "getcol (h' r) cv = Inr cs" "card (set color_used2 \<inter> {0..<8}) + card (set cs) \<le> 8" by blast
  ultimately show ?thesis by (intro exI [of _ cs]) simp
qed


lemma level_group_means:
  assumes "v \<in> set ks1" and "length ks2 = length ks1"
  shows "\<exists>a. level (group_means (zip ks1 ks2) vs) v = Inr a"
proof -
  from assms(1) obtain i where i: "i < length ks1" "ks1 ! i = v"
    by (auto simp: in_set_conv_nth)
  with assms(2) have "(v, ks2 ! i) \<in> set (zip ks1 ks2)"
    by (auto simp: in_set_zip intro!: exI [of _ i])
  then have "(v, ks2 ! i) \<in> set (sort (remdups (zip ks1 ks2)))" by simp
  then have "\<exists>r \<in> set (group_means (zip ks1 ks2) vs). fst (fst r) = v"
    unfolding group_means_def by force
  then have "filter (\<lambda>r. fst (fst r) = v) (group_means (zip ks1 ks2) vs) \<noteq> []"
    by (simp add: filter_empty_conv)
  then show ?thesis by (simp add: level_def Let_def)
qed

lemma cat_loop_returns:
  assumes cs: "getcol df cv = Inr cs" and xs: "getcol df x_var = Inr xs"
    and inc: "increasing x_bar"
    and fair: "\<forall>p. \<forall>c<8. \<exists>k. randint entropy (p + k) 0 8 = c"
  shows "(\<forall>v \<in> set vs. (\<exists>a. level tx v = Inr a) \<and> (\<exists>b. level ty v = Inr b)) \<Longrightarrow>
         card (set used \<inter> {0..<8}) + length vs \<le> 8 \<Longrightarrow>
         \<exists>r. cat_loop entropy df cv x_var x_bar tx ty vs acc pos used = Returns r"
proof (induction vs arbitrary: acc pos used)
  case Nil
  then show ?case by simp
next
  case (Cons v rest)
  from Cons.prems(1) obtain a b where lv: "level tx v = Inr a" "level ty v = Inr b" by auto
  from Cons.prems(2) have "card (set used \<inter> {0..<8}) < 8" by simp
  moreover from fair have "\<forall>c<8. \<exists>k. randint entropy (pos + k) 0 8 = c" by blast
  ultimately obtain temp pos' where
    fc: "find_color entropy pos used = Returns (AXA_colors ! temp, used @ [temp], pos')"
    and temp: "temp < 8" "temp \<notin> set used"
    using find_color_returns_fair by blast
  from temp Cons.prems(2) have "card (set (used @ [temp]) \<inter> {0..<8}) + length rest \<le> 8"
    using card_used_snoc [of temp used] by simp
  moreover from Cons.prems(1)
  have "\<forall>v \<in> set rest. (\<exists>a. level tx v = Inr a) \<and> (\<exists>b. level ty v = Inr b)" by simp
  ultimately obtain r where
    "cat_loop entropy df cv x_var x_bar tx ty rest
       (acc @ [create_scatter a b (Str_of v) (AXA_colors ! temp) 1,
               Bar x_bar (bar_heights (map (\<lambda>i. length (filter (in_bin x_bar i) (cat_rows cs xs v)))
                                           [0..<length x_bar - 1]) (nrows df))
                   (AXA_colors ! temp) (3 / 10) (Str_of v)])
       pos' (used @ [temp]) = Returns r"
    using Cons.IH by blast
  then show ?case
    by (cases r)
      (simp add: lv cs xs inc fc np_histogram_def and_then_def lift_def del: One_nat_def)
qed

lemma create_cat_plots_returns:
  assumes wf: "wf_df df"
    and cs: "getcol df cv = Inr cs" and cat: "has_column df ''cat''"
    and x: "has_column df x_var" and y: "has_column df y_var"
    and inc: "increasing x_bar"
    and fair: "\<forall>p. \<forall>c<8. \<exists>k. randint entropy (p + k) 0 8 = c"
    and budget: "card (set color_used \<inter> {0..<8}) + card (set cs) \<le> 8"
  shows "\<exists>r. create_cat_plots entropy pos df cv x_var y_var x_bar color_used = Returns r"
proof -
  from cat x y obtain cats xs ys where cols: "getcol df ''cat'' = Inr cats"
    "getcol df x_var = Inr xs" "getcol df y_var = Inr ys"
    using getcol_present by metis
  have len: "length cats = length cs"
    using wf cs cols(1) by (simp add: getcol_length)
  have g: "groupby2_mean df cv ''cat'' x_var = Inr (group_means (zip cs cats) xs)"
    "groupby2_mean df cv ''cat'' y_var = Inr (group_means (zip cs cats) ys)"
    by (simp_all add: groupby2_mean_def cs cols)
  have lv: "\<forall>v \<in> set (unique cs). (\<exists>a. level (group_means (zip cs cats) xs) v = Inr a)
                               \<and> (\<exists>b. level (group_means (zip cs cats) ys) v = Inr b)"
    using level_group_means [OF _ len] by (simp add: set_unique)
  from budget have "card (set color_used \<inter> {0..<8}) + length (unique cs) \<le> 8"
    by (simp add: length_unique)
  from cat_loop_returns [OF cs cols(2) inc fair lv this] show ?thesis
    by (simp add: create_cat_plots_def g cs and_then_def lift_def)
qed

lemma wf_df_setcol:
  assumes "wf_df df" and "length c = nrows df"
  shows "wf_df (setcol df name c)"
proof -
  have sub: "set (AList.update name c al) \<subseteq> insert (name, c) (set al)" for al
    by (induction al) auto
  have "length (snd p) = nrows df" if "p \<in> set (AList.update name c (columns df))" for p
  proof -
    from that sub have "p = (name, c) \<or> p \<in> set (columns df)" by blast
    with assms show ?thesis by (auto simp: wf_df_def list_all_iff)
  qed
  with assms(1) show ?thesis
    by (simp add: wf_df_def setcol_def distinct_update list_all_iff)
qed


lemma card_used_le_length: "card (set color_used \<inter> {0..<8::nat}) \<le> length color_used"
proof -
  have "card (set color_used \<inter> {0..<8}) \<le> card (set color_used)"
    by (rule card_mono) auto
  also have "\<dots> \<le> length color_used" by (rule card_length)
  finally show ?thesis .
qed

lemma create_figure_returns_categorical:
  assumes wf: "wf_df (h r)"
    and col: "getcol (h r) x_var = Inr s" "s \<noteq> []" "0 < Max (set s)"
    and y: "has_column (h r) y_var" and pr: "has_column (h r) ''pr_total''"
    and second: "case second_y_var of None \<Rightarrow> True | Some s2 \<Rightarrow> has_column (h r) s2"
    and cvc: "getcol (h r) cv = Inr cs" "cv \<noteq> ''cat''" "card (set cs) \<le> 6"
    and fair: "\<forall>p. \<forall>c<8. \<exists>k. randint entropy (p + k) 0 8 = c"
  shows "\<exists>plot h'. create_figure entropy pos h r x_var y_var x_title y_title title second_y_var
                     (Some cv) stack_bar = Returns (plot, h')"
proof -
  let ?d = "randint entropy pos 0 8"
  let ?color = "AXA_colors ! ?d"
  from create_dist_None_returns [OF col, of "1 / 10" ?color] obtain trace_bar x_bar where
    cd: "create_dist (h r) x_var ?color None (1 / 10) = Inr (trace_bar, x_bar)"
    and len: "2 \<le> length x_bar"
    by auto
  have inc: "increasing x_bar" using cd by (rule create_dist_Inr_increasing(1))
  define h' where "h' = h(r := setcol (h r) ''cat'' (map (\<lambda>v. of_nat (cat_of x_bar v)) s))"
  have cc: "cat_clients h r x_var x_bar = Inr (r, h')"
    unfolding h'_def using col(1) len by (rule cat_clients_present [of h r])
  have cols: "has_column (h' r) n \<longleftrightarrow> n = ''cat'' \<or> has_column (h r) n" for n
    by (simp add: h'_def has_column_setcol)
  have x: "has_column (h r) x_var"
    using col(1) getcol_absent_iff [of "h r" x_var] by auto
  have wf': "wf_df (h' r)"
    using wf col(1) by (simp add: h'_def wf_df_setcol getcol_length)
  have cs': "getcol (h' r) cv = Inr cs"
    using cvc(1,2) by (simp add: h'_def getcol_setcol)
  from avg_cats_returns [of "h' r" x_var y_var] obtain ax ay where
    av: "avg_cats (h' r) x_var y_var = Inr (ax, ay)"
    using x y pr by (auto simp: cols)
  let ?data = "[trace_bar, create_scatter ax ay (Text x_var) ?color 1]"
  let ?layout = "\<lparr>layout_title = title, xaxis = (x_title, True), yaxis = y_title,
            barmode = (if stack_bar then Some ''stack'' else None), yaxis2 = None\<rparr>"
  have "\<exists>data2 layout2 used2 pos2.
          second_axis entropy (h' r) x_var second_y_var x_bar ?data ?layout [?d] (Suc pos)
            = Returns (data2, layout2, used2, pos2, x_bar) \<and> length used2 \<le> 2"
  proof (cases second_y_var)
    case None
    then show ?thesis by (simp add: second_axis_None)
  next
    case (Some s2)
    with second have s2: "has_column (h r) s2" by simp
    from avg_cats_returns [of "h' r" x_var s2] obtain x2 y2 where
      a2: "avg_cats (h' r) x_var s2 = Inr (x2, y2)"
      using x s2 pr by (auto simp: cols)
    have "card (set [?d] \<inter> {0..<8}) < 8"
      using card_used_le_length [of "[?d]"] by simp
    moreover from fair have "\<forall>c<8. \<exists>k. randint entropy (Suc pos + k) 0 8 = c" by blast
    ultimately obtain temp pos' where
      fc: "find_color entropy (Suc pos) [?d] = Returns (AXA_colors ! temp, [?d] @ [temp], pos')"
      using find_color_returns_fair by blast
    from s2 have "has_column (h' r) s2" by (simp add: cols)
    then obtain c2 where "getcol (h' r) s2 = Inr c2" using getcol_present by blast
    then obtain bar2 where
      "create_dist (h' r) s2 (AXA_colors ! temp) (Some x_bar) (1 / 10) = Inr (bar2, x_bar)"
      using inc by (simp add: create_dist_Some_Inr_iff)
    with a2 fc show ?thesis
      unfolding Some second_axis_Some_Returns_iff by (simp del: One_nat_def)
  qed
  then obtain data2 layout2 used2 pos2 where
    sa: "second_axis entropy (h' r) x_var second_y_var x_bar ?data ?layout [?d] (Suc pos)
          = Returns (data2, layout2, used2, pos2, x_bar)"
    and used2: "length used2 \<le> 2"
    by blast
  have "card (set used2 \<inter> {0..<8}) + card (set cs) \<le> 8"
    using card_used_le_length [of used2] used2 cvc(3) by simp
  from create_cat_plots_returns [OF wf' cs' _ _ _ inc fair this, of x_var y_var pos2]
  obtain trace_cats used3 pos3 where
    "create_cat_plots entropy pos2 (h' r) cv x_var y_var x_bar used2
       = Returns (trace_cats, used3, pos3)"
    using x y by (auto simp: cols)
  then have ca: "categorical entropy (h' r) (Some cv) x_var y_var x_bar data2 used2 pos2
                   = Returns (data2 @ trace_cats)"
    by (simp add: categorical_Some_Returns_iff)
  from create_figure_ReturnsI [OF find_color_fresh cd cc av sa ca] show ?thesis by blast
qed


lemma identity_draws_fair: "\<forall>p. \<forall>c<8. \<exists>k. randint (\<lambda>i. i) (p + k) 0 8 = c"
proof (intro allI impI)
  fix p c :: nat
  assume "c < 8"
  then have "randint (\<lambda>i. i) (p + (c + 7 * p)) 0 8 = c" by (simp add: randint_def)
  then show "\<exists>k. randint (\<lambda>i. i) (p + k) 0 8 = c" ..
qed

text \<open>
  C9. When \<^verbatim>\<open>color_used\<close> holds fewer than 8 distinct indices of \<open>{0..7}\<close> and the
  generator, from the current position on, eventually draws every index, \<^verbatim>\<open>find_color\<close>
  returns: the colour of an index below 8 that is not in \<^verbatim>\<open>color_used\<close>, and
  \<^verbatim>\<open>color_used\<close> with exactly that index appended. When \<^verbatim>\<open>color_used\<close> holds all 8
  indices, the retry loop never exits, whatever the generator draws. So a figure that
  asks for more than 8 colours does not complete: \<^verbatim>\<open>create_cat_plots\<close> returns only if the
  colours already used and the distinct values of the categorical column are at most 8
  together, and \<^verbatim>\<open>create_figure\<close> with a categorical variable only if that column has at
  most 7 distinct values.
\<close>

theorem find_color_needs_unused_colour:
  "(card (set color_used \<inter> {0..<8}) < 8 \<longrightarrow>
      (\<forall>c<8. \<exists>k. randint entropy (pos + k) 0 8 = c) \<longrightarrow>
      (\<exists>temp pos'. find_color entropy pos color_used
                      = Returns (AXA_colors ! temp, color_used @ [temp], pos')
                    \<and> temp < 8 \<and> temp \<notin> set color_used))
   \<and> ({0..<8} \<subseteq> set color_used \<longrightarrow> find_color entropy pos color_used = Diverges)
   \<and> (create_cat_plots entropy pos df categorical_var x_var y_var x_bar color_used
         = Returns (trace_cats, color_used', pos') \<longrightarrow>
       (\<exists>cs. getcol df categorical_var = Inr cs
             \<and> card (set color_used \<inter> {0..<8}) + card (set cs) \<le> 8))
   \<and> (create_figure entropy pos h r x_var y_var x_title y_title title second_y_var
         (Some categorical_var) stack_bar = Returns (plot, h') \<longrightarrow>
       (\<exists>cs. getcol (h' r) categorical_var = Inr cs \<and> card (set cs) \<le> 7))"
proof (intro conjI impI)
  assume "card (set color_used \<inter> {0..<8}) < 8"
    and "\<forall>c<8. \<exists>k. randint entropy (pos + k) 0 8 = c"
  then show "\<exists>temp pos'. find_color entropy pos color_used
                      = Returns (AXA_colors ! temp, color_used @ [temp], pos')
                    \<and> temp < 8 \<and> temp \<notin> set color_used"
    by (rule find_color_returns_fair)
next
  assume "{0..<8} \<subseteq> set color_used"
  then show "find_color entropy pos color_used = Diverges"
    by (simp add: find_color_def retry_all_used)
next
  assume "create_cat_plots entropy pos df categorical_var x_var y_var x_bar color_used
         = Returns (trace_cats, color_used', pos')"
  then show "\<exists>cs. getcol df categorical_var = Inr cs
             \<and> card (set color_used \<inter> {0..<8}) + card (set cs) \<le> 8"
    by (rule create_cat_plots_colour_budget)
next
  assume "create_figure entropy pos h r x_var y_var x_title y_title title second_y_var
         (Some categorical_var) stack_bar = Returns (plot, h')"
  then show "\<exists>cs. getcol (h' r) categorical_var = Inr cs \<and> card (set cs) \<le> 7"
    by (rule create_figure_colour_budget)
qed

text \<open>
  The generator that draws \<open>0, 1, 2, \<dots>\<close> in turn: a call with two colours used, a call
  with all eight used, and a categorical overlay of two values, alone and in a figure.
\<close>

theorem find_color_needs_unused_colour_witness:
  "card (set [0, 1] \<inter> {0..<8::nat}) < 8
   \<and> (\<exists>temp pos'. find_color (\<lambda>i. i) 0 [0, 1] = Returns (AXA_colors ! temp, [0, 1] @ [temp], pos')
                    \<and> temp < 8 \<and> temp \<notin> set [0, 1])
   \<and> {0..<8} \<subseteq> set [0, 1, 2, 3, 4, 5, 6, 7::nat]
   \<and> find_color (\<lambda>i. i) 0 [0, 1, 2, 3, 4, 5, 6, 7] = Diverges
   \<and> (\<exists>trace_cats color_used' pos' cs.
         create_cat_plots (\<lambda>i. i) 0
           \<lparr>nrows = 3, columns = [(''g'', [1, 2, 1]), (''x'', [1, 3, 1]), (''y'', [2, 4, 6]),
                                  (''cat'', [0, 1, 0])]\<rparr>
           ''g'' ''x'' ''y'' [0, 2, 4] [] = Returns (trace_cats, color_used', pos')
       \<and> getcol \<lparr>nrows = 3, columns = [(''g'', [1, 2, 1]), (''x'', [1, 3, 1]), (''y'', [2, 4, 6]),
                                  (''cat'', [0, 1, 0])]\<rparr> ''g'' = Inr cs
       \<and> card (set [] \<inter> {0..<8::nat}) + card (set cs) \<le> 8)
   \<and> (\<exists>plot h' cs.
         create_figure (\<lambda>i. i) 0
           (\<lambda>_. \<lparr>nrows = 3, columns = [(''x'', [10, 30, 50]), (''y'', [2, 4, 6]),
                                      (''g'', [1, 2, 1]), (''pr_total'', [9, 8, 7])]\<rparr>) 0
           ''x'' ''y'' ''X'' ''Y'' ''demo'' None (Some ''g'') False = Returns (plot, h')
       \<and> getcol (h' 0) ''g'' = Inr cs \<and> card (set cs) \<le> 7)"
proof -
  have few: "card (set [0, 1] \<inter> {0..<8::nat}) < 8"
  proof -
    have "set [0, 1] \<inter> {0..<8::nat} = {0, 1}" by auto
    then show ?thesis by simp
  qed
  have fair: "\<forall>c<8. \<exists>k. randint (\<lambda>i. i) (0 + k) 0 8 = c"
    using identity_draws_fair by blast
  have full: "{0..<8} \<subseteq> set [0, 1, 2, 3, 4, 5, 6, 7::nat]"
  proof
    fix x :: nat assume "x \<in> {0..<8}"
    then have "x < 8" by simp
    then have "x = 0 \<or> x = 1 \<or> x = 2 \<or> x = 3 \<or> x = 4 \<or> x = 5 \<or> x = 6 \<or> x = 7" by arith
    then show "x \<in> set [0, 1, 2, 3, 4, 5, 6, 7]" by auto
  qed
  note t = find_color_needs_unused_colour
  from t [where color_used = "[0, 1]" and entropy = "\<lambda>i. i" and pos = 0,
          THEN conjunct1, THEN mp, THEN mp, OF few fair]
  have a: "\<exists>temp pos'. find_color (\<lambda>i. i) 0 [0, 1]
        = Returns (AXA_colors ! temp, [0, 1] @ [temp], pos') \<and> temp < 8 \<and> temp \<notin> set [0, 1]" .
  from t [where color_used = "[0, 1, 2, 3, 4, 5, 6, 7]" and entropy = "\<lambda>i. i" and pos = 0,
          THEN conjunct2, THEN conjunct1, THEN mp, OF full]
  have b: "find_color (\<lambda>i. i) 0 [0, 1, 2, 3, 4, 5, 6, 7] = Diverges" .
  note run = cat_plots_example
  from t [THEN conjunct2, THEN conjunct2, THEN conjunct1, THEN mp, OF run] run
  have c: "\<exists>trace_cats color_used' pos' cs.
         create_cat_plots (\<lambda>i. i) 0
           \<lparr>nrows = 3, columns = [(''g'', [1, 2, 1]), (''x'', [1, 3, 1]), (''y'', [2, 4, 6]),
                                  (''cat'', [0, 1, 0])]\<rparr>
           ''g'' ''x'' ''y'' [0, 2, 4] [] = Returns (trace_cats, color_used', pos')
       \<and> getcol \<lparr>nrows = 3, columns = [(''g'', [1, 2, 1]), (''x'', [1, 3, 1]), (''y'', [2, 4, 6]),
                                  (''cat'', [0, 1, 0])]\<rparr> ''g'' = Inr cs
       \<and> card (set [] \<inter> {0..<8::nat}) + card (set cs) \<le> 8"
    by blast
  let ?h = "\<lambda>_::nat. \<lparr>nrows = 3, columns = [(''x'', [10, 30, 50]), (''y'', [2, 4, 6]),
                                      (''g'', [1, 2, 1]), (''pr_total'', [9, 8, 7 :: rat])]\<rparr>"
  have wf: "wf_df (?h 0)" by (simp add: wf_df_def)
  have col: "getcol (?h 0) ''x'' = Inr [10, 30, 50]" "getcol (?h 0) ''g'' = Inr [1, 2, 1]"
    by (simp_all add: getcol_def)
  have has: "has_column (?h 0) ''y''" "has_column (?h 0) ''pr_total''"
    by (simp_all add: has_column_def)
  have pos: "[10, 30, 50 :: rat] \<noteq> []" "0 < Max (set [10, 30, 50 :: rat])" by simp_all
  have "set [1, 2, 1 :: rat] = {1, 2}" by auto
  then have six: "card (set [1, 2, 1 :: rat]) \<le> 6" by simp
  have g: "''g'' \<noteq> ''cat''" by simp
  have sec: "case None :: string option of None \<Rightarrow> True | Some s2 \<Rightarrow> has_column (?h 0) s2"
    by simp
  from create_figure_returns_categorical [where h = ?h and r = 0 and second_y_var = None
      and entropy = "\<lambda>i. i" and pos = 0 and x_title = "''X''" and y_title = "''Y''"
      and title = "''demo''" and stack_bar = False,
      OF wf col(1) pos has sec col(2) g six identity_draws_fair]
  obtain plot h' where
    fig: "create_figure (\<lambda>i. i) 0 ?h 0 ''x'' ''y'' ''X'' ''Y'' ''demo'' None (Some ''g'') False
            = Returns (plot, h')"
    by blast
  from t [THEN conjunct2, THEN conjunct2, THEN conjunct2, THEN mp, OF fig] fig
  have d: "\<exists>plot h' cs.
         create_figure (\<lambda>i. i) 0 ?h 0 ''x'' ''y'' ''X'' ''Y'' ''demo'' None (Some ''g'') False
           = Returns (plot, h')
       \<and> getcol (h' 0) ''g'' = Inr cs \<and> card (set cs) \<le> 7"
    by blast
  from few a full b c d show ?thesis by (intro conjI)
qed

end
